theory Spec2Isabelle
  imports Complex_Main "HOL-Library.Sublist"
begin

section \<open>Values decoded from the remote API\<close>

text \<open>
  The bodies the client decodes with \<open>response.json()\<close> are arbitrary JSON values. A
  decoded object is kept as an association list whose first binding of a key is the one a
  lookup sees. A JSON number written with a fraction or an exponent is kept as the
  rational number its text denotes; Python's \<open>None\<close> is \<open>JNull\<close>.
\<close>

datatype json =
    JNull
  | JBool bool
  | JInt int
  | JFloat rat
  | JStr string
  | JList "json list"
  | JDict "(string \<times> json) list"

text \<open>
  The exceptions that can travel through the client and the coordinator.
  \<open>RaptApiError\<close> carries its message; the built-in exceptions carry none, their text
  belongs to the interpreter.
\<close>

datatype pyexc =
    RaptApiError string
  | TypeError
  | AttributeError
  | KeyError
  | OverflowError
  | TimeoutError
  | JSONDecodeError

type_synonym 'a result = "pyexc + 'a"

text \<open>Truth value of a decoded value, as \<open>if device_id:\<close> tests it.\<close>

fun truthy :: "json \<Rightarrow> bool" where
  "truthy JNull = False"
| "truthy (JBool b) = b"
| "truthy (JInt n) = (n \<noteq> 0)"
| "truthy (JFloat x) = (x \<noteq> 0)"
| "truthy (JStr s) = (s \<noteq> [])"
| "truthy (JList xs) = (xs \<noteq> [])"
| "truthy (JDict kvs) = (kvs \<noteq> [])"

text \<open>\<open>key in obj\<close> for a string key: key membership on a dict, element membership on a
  list, substring test on a string, \<open>TypeError\<close> on anything else.\<close>

fun py_in :: "string \<Rightarrow> json \<Rightarrow> bool result" where
  "py_in k (JDict kvs) = Inr (map_of kvs k \<noteq> None)"
| "py_in k (JList xs) = Inr (JStr k \<in> set xs)"
| "py_in k (JStr s) = Inr (sublist k s)"
| "py_in k JNull = Inl TypeError"
| "py_in k (JBool b) = Inl TypeError"
| "py_in k (JInt n) = Inl TypeError"
| "py_in k (JFloat x) = Inl TypeError"

text \<open>\<open>obj[key]\<close> for a string key.\<close>

fun py_getitem :: "json \<Rightarrow> string \<Rightarrow> json result" where
  "py_getitem (JDict kvs) k = (case map_of kvs k of None \<Rightarrow> Inl KeyError | Some v \<Rightarrow> Inr v)"
| "py_getitem (JList xs) k = Inl TypeError"
| "py_getitem (JStr s) k = Inl TypeError"
| "py_getitem JNull k = Inl TypeError"
| "py_getitem (JBool b) k = Inl TypeError"
| "py_getitem (JInt n) k = Inl TypeError"
| "py_getitem (JFloat x) k = Inl TypeError"

text \<open>\<open>obj.get(key, default)\<close>: only a dict has the method.\<close>

fun py_get :: "json \<Rightarrow> string \<Rightarrow> json \<Rightarrow> json result" where
  "py_get (JDict kvs) k d = Inr (case map_of kvs k of None \<Rightarrow> d | Some v \<Rightarrow> v)"
| "py_get (JList xs) k d = Inl AttributeError"
| "py_get (JStr s) k d = Inl AttributeError"
| "py_get JNull k d = Inl AttributeError"
| "py_get (JBool b) k d = Inl AttributeError"
| "py_get (JInt n) k d = Inl AttributeError"
| "py_get (JFloat x) k d = Inl AttributeError"

section \<open>Time\<close>

text \<open>
  An instant (\<open>datetime\<close>) is a number of microseconds since \<open>datetime.min\<close>, a duration
  (\<open>timedelta\<close>) a number of microseconds. \<open>timedelta(seconds=v)\<close> accepts a number (a
  boolean counts as 0 or 1) and raises \<open>OverflowError\<close> beyond 999999999 days; adding a
  duration to an instant raises \<open>OverflowError\<close> outside \<open>datetime.min .. datetime.max\<close>.

  Python decodes a JSON number written with a fraction or an exponent to a floating-point
  number, and \<open>timedelta\<close> computes its microseconds in floating-point arithmetic. That
  arithmetic belongs to the interpreter and is not modelled: \<open>timedelta_seconds\<close> takes
  as its first argument the function that tells, for the number the JSON text denotes,
  what \<open>timedelta(seconds=x)\<close> gives, a duration or an exception.
\<close>

definition datetime_max :: int where
  "datetime_max = 315537897599999999"

definition timedelta_of_micros :: "int \<Rightarrow> int result" where
  "timedelta_of_micros us =
     (if - 999999999 \<le> us div 86400000000 \<and> us div 86400000000 \<le> 999999999
      then Inr us else Inl OverflowError)"

fun timedelta_seconds :: "(rat \<Rightarrow> int result) \<Rightarrow> json \<Rightarrow> int result" where
  "timedelta_seconds of_float (JInt n) = timedelta_of_micros (n * 1000000)"
| "timedelta_seconds of_float (JBool b) = timedelta_of_micros (if b then 1000000 else 0)"
| "timedelta_seconds of_float (JFloat x) = of_float x"
| "timedelta_seconds of_float JNull = Inl TypeError"
| "timedelta_seconds of_float (JStr s) = Inl TypeError"
| "timedelta_seconds of_float (JList xs) = Inl TypeError"
| "timedelta_seconds of_float (JDict kvs) = Inl TypeError"

definition datetime_add :: "int \<Rightarrow> int \<Rightarrow> int result" where
  "datetime_add t d =
     (if 0 \<le> t + d \<and> t + d \<le> datetime_max then Inr (t + d) else Inl OverflowError)"

section \<open>Decimal text of an integer\<close>

definition digit :: "nat \<Rightarrow> char" where
  "digit d = ''0123456789'' ! d"

fun str_nat :: "nat \<Rightarrow> string" where
  "str_nat n =
     (if n < 10 then [digit n]
      else str_nat (n div 10) @ [digit (n mod 10)])"

declare str_nat.simps [simp del]

definition str_int :: "int \<Rightarrow> string" where
  "str_int i = (if i < 0 then CHR ''-'' # str_nat (nat (- i)) else str_nat (nat i))"

section \<open>The network and the clock\<close>

text \<open>
  What \<open>response.json()\<close> does: it returns the decoded body, raises
  \<open>aiohttp.ContentTypeError\<close> because the content type of the response is not JSON (the
  one failure the client handles), or raises \<open>json.JSONDecodeError\<close> because the body,
  although labelled JSON, cannot be decoded.
\<close>

datatype decoding =
    Decoded json
  | RaisesContentTypeError
  | RaisesJSONDecodeError

text \<open>
  A response as the client reads it: the status, the body as text, and what
  \<open>response.json()\<close> does. Once a response is there, reading its text does not fail.
\<close>

record response =
  status :: int
  body_text :: string
  json_body :: decoding

text \<open>
  What an HTTP call of the session does: it raises an \<open>aiohttp.ClientError\<close> (with its
  text), raises some other exception (the total timeout raises \<open>TimeoutError\<close>), or gives
  a response.
\<close>

datatype net_result =
    ClientError string
  | Raises pyexc
  | Response response

text \<open>What the client and the coordinator do to the outside, in the order they do it.\<close>

datatype event =
    Post string "(string \<times> string) list" "(string \<times> string) list"
  | Request string string json
  | Sleep int
  | CallbackCalled nat "json list"
  | RefreshRequested

text \<open>
  The world outside the client: the clock \<open>datetime.now()\<close> reads, the trace of events so
  far, the environment \<open>env\<close>, which tells for the \<open>k\<close>-th event how long it takes
  (microseconds) and, for an HTTP call, what the call does, and \<open>float_timedelta\<close>, what
  the interpreter's \<open>timedelta(seconds=x)\<close> gives for a floating-point \<open>x\<close>. Time passes
  only while the program awaits.
\<close>

record world =
  clock :: int
  env :: "nat \<Rightarrow> nat \<times> net_result"
  trace :: "event list"
  float_timedelta :: "rat \<Rightarrow> int result"

definition http :: "event \<Rightarrow> world \<Rightarrow> net_result \<times> world" where
  "http ev w =
     (case env w (length (trace w)) of
        (took, res) \<Rightarrow> (res, w\<lparr>clock := clock w + int took, trace := trace w @ [ev]\<rparr>))"

text \<open>\<open>asyncio.sleep(d)\<close> returns after \<open>d\<close> or later.\<close>

definition sleep :: "int \<Rightarrow> world \<Rightarrow> world" where
  "sleep d w =
     (case env w (length (trace w)) of
        (lag, res) \<Rightarrow> w\<lparr>clock := clock w + d + int lag, trace := trace w @ [Sleep d]\<rparr>)"

section \<open>The API client\<close>

definition API_BASE_URL :: string where
  "API_BASE_URL = ''https://api.rapt.io/api''"

definition API_AUTH_URL :: string where
  "API_AUTH_URL = ''https://id.rapt.io/connect/token''"

definition API_CONTROLLERS_ENDPOINT :: string where
  "API_CONTROLLERS_ENDPOINT = ''/TemperatureControllers/GetTemperatureControllers''"

definition API_HYDROMETERS_ENDPOINT :: string where
  "API_HYDROMETERS_ENDPOINT = ''/Hydrometers/GetHydrometers''"

definition API_FERMENTATION_CHAMBERS_ENDPOINT :: string where
  "API_FERMENTATION_CHAMBERS_ENDPOINT = ''/FermentationChambers/GetFermentationChambers''"

definition API_BREWZILLAS_ENDPOINT :: string where
  "API_BREWZILLAS_ENDPOINT = ''/BrewZillas/GetBrewZillas''"

text \<open>The fields of \<open>RaptApiClient\<close>; the lock is the subject of a later section.\<close>

record client =
  username :: string
  api_secret :: string
  bearer_token :: json
  token_expires_at :: "int option"
  last_request_time :: "int option"

definition auth_post :: "client \<Rightarrow> event" where
  "auth_post c =
     Post API_AUTH_URL
       [(''Content-Type'', ''application/x-www-form-urlencoded'')]
       [(''client_id'', ''rapt-user''), (''grant_type'', ''password''),
        (''username'', username c), (''password'', api_secret c)]"

definition authenticate :: "client \<Rightarrow> world \<Rightarrow> unit result \<times> client \<times> world" where
  "authenticate c w =
     (case http (auth_post c) w of
        (ClientError err, w1) \<Rightarrow> (Inl (RaptApiError (''Network error: '' @ err)), c, w1)
      | (Raises e, w1) \<Rightarrow> (Inl e, c, w1)
      | (Response r, w1) \<Rightarrow>
          if status r = 400 then
            (Inl (RaptApiError ''Authentication failed: Invalid username or API key''), c, w1)
          else if status r = 401 then
            (Inl (RaptApiError ''Authentication failed: Invalid username or API key''), c, w1)
          else if status r \<noteq> 200 then
            (Inl (RaptApiError (''Authentication failed: HTTP '' @ str_int (status r))), c, w1)
          else
            (case json_body r of
               RaisesContentTypeError \<Rightarrow>
                 (Inl (RaptApiError ''Authentication failed: Invalid response format''), c, w1)
             | RaisesJSONDecodeError \<Rightarrow> (Inl JSONDecodeError, c, w1)
             | Decoded token_data \<Rightarrow>
                 (case py_in ''access_token'' token_data of
                    Inl e \<Rightarrow> (Inl e, c, w1)
                  | Inr False \<Rightarrow>
                      (Inl (RaptApiError ''No access token received from API''), c, w1)
                  | Inr True \<Rightarrow>
                      (case py_getitem token_data ''access_token'' of
                         Inl e \<Rightarrow> (Inl e, c, w1)
                       | Inr tok \<Rightarrow>
                           (let c1 = c\<lparr>bearer_token := tok\<rparr> in
                            case py_get token_data ''expires_in'' (JInt 2700) of
                              Inl e \<Rightarrow> (Inl e, c1, w1)
                            | Inr expires_in_seconds \<Rightarrow>
                                (case timedelta_seconds (float_timedelta w1) expires_in_seconds of
                                   Inl e \<Rightarrow> (Inl e, c1, w1)
                                 | Inr delta \<Rightarrow>
                                     (case datetime_add (clock w1) delta of
                                        Inl e \<Rightarrow> (Inl e, c1, w1)
                                      | Inr t \<Rightarrow>
                                          (Inr (), c1\<lparr>token_expires_at := Some t\<rparr>, w1))))))))"

definition ensure_authenticated :: "client \<Rightarrow> world \<Rightarrow> unit result \<times> client \<times> world" where
  "ensure_authenticated c w =
     (if bearer_token c = JNull
         \<or> (case token_expires_at c of None \<Rightarrow> True | Some t \<Rightarrow> clock w \<ge> t)
      then authenticate c w
      else (Inr (), c, w))"

text \<open>
  Lines 104 to 107 of \<open>_rate_limited_request\<close>: the time to sleep before the request, if
  any, from the stamp of the last request and the reading of the clock; 15 seconds are
  15000000 microseconds.
\<close>

definition required_sleep :: "int option \<Rightarrow> int \<Rightarrow> int option" where
  "required_sleep last_time now =
     (case last_time of
        None \<Rightarrow> None
      | Some t \<Rightarrow>
          (let time_since_last = now - t in
           if time_since_last < 15000000 then Some (15000000 - time_since_last) else None))"

text \<open>
  Lines 115 to 161 of \<open>_rate_limited_request\<close>: the request with the bearer token of the
  moment and, on a 401, the re-authentication and the retry. The callers of this
  repository pass no keyword arguments, so the only header is
  \<open>Authorization: Bearer token\<close>; the \<open>Request\<close> event records the token it carries.
  \<open>authenticate\<close> raises no \<open>aiohttp.ClientError\<close>, and \<open>json.JSONDecodeError\<close> is none, so
  they pass the handler of line 159 unchanged.
\<close>

definition request_with_retry ::
  "string \<Rightarrow> string \<Rightarrow> client \<Rightarrow> world \<Rightarrow> json result \<times> client \<times> world" where
  "request_with_retry method url c2 w2 =
     (case http (Request method url (bearer_token c2)) w2 of
        (ClientError err, w3) \<Rightarrow>
          (Inl (RaptApiError (''Network error: '' @ err)), c2, w3)
      | (Raises e, w3) \<Rightarrow> (Inl e, c2, w3)
      | (Response r, w3) \<Rightarrow>
          if status r = 401 then
            (case authenticate c2 w3 of
               (Inl e, c4, w4) \<Rightarrow> (Inl e, c4, w4)
             | (Inr u, c4, w4) \<Rightarrow>
                 (case http (Request method url (bearer_token c4)) w4 of
                    (ClientError err, w5) \<Rightarrow>
                      (Inl (RaptApiError (''Network error: '' @ err)), c4, w5)
                  | (Raises e, w5) \<Rightarrow> (Inl e, c4, w5)
                  | (Response rr, w5) \<Rightarrow>
                      if status rr \<noteq> 200 then
                        (Inl (RaptApiError (''Request failed after re-auth: ''
                                @ str_int (status rr) @ '' - '' @ body_text rr)),
                         c4, w5)
                      else
                        (case json_body rr of
                           RaisesContentTypeError \<Rightarrow>
                             (Inl (RaptApiError ''Invalid JSON response from API''), c4, w5)
                         | RaisesJSONDecodeError \<Rightarrow> (Inl JSONDecodeError, c4, w5)
                         | Decoded j \<Rightarrow> (Inr j, c4, w5))))
          else if status r \<noteq> 200 then
            (if status r = 403 then
               (Inl (RaptApiError (''Access forbidden: '' @ body_text r)), c2, w3)
             else if status r = 404 then
               (Inl (RaptApiError (''API endpoint not found: '' @ body_text r)), c2, w3)
             else if status r \<ge> 500 then
               (Inl (RaptApiError (''Server error: '' @ str_int (status r)
                       @ '' - '' @ body_text r)), c2, w3)
             else
               (Inl (RaptApiError (''Request failed: '' @ str_int (status r)
                       @ '' - '' @ body_text r)), c2, w3))
          else
            (case json_body r of
               RaisesContentTypeError \<Rightarrow>
                 (Inl (RaptApiError ''Invalid JSON response from API''), c2, w3)
             | RaisesJSONDecodeError \<Rightarrow> (Inl JSONDecodeError, c2, w3)
             | Decoded j \<Rightarrow> (Inr j, c2, w3)))"

text \<open>
  \<open>_rate_limited_request\<close>, the body of the \<open>async with self._rate_limit_lock\<close> block run
  from start to end: the sleep, the stamp of line 111, \<open>_ensure_authenticated\<close>, then
  the request.
\<close>

definition rate_limited_request ::
  "string \<Rightarrow> string \<Rightarrow> client \<Rightarrow> world \<Rightarrow> json result \<times> client \<times> world" where
  "rate_limited_request method url c w =
     (let w1 = (case required_sleep (last_request_time c) (clock w) of
                  None \<Rightarrow> w
                | Some sleep_time \<Rightarrow> sleep sleep_time w);
          c1 = c\<lparr>last_request_time := Some (clock w1)\<rparr>
      in case ensure_authenticated c1 w1 of
           (Inl e, c2, w2) \<Rightarrow> (Inl e, c2, w2)
         | (Inr u, c2, w2) \<Rightarrow> request_with_retry method url c2 w2)"

text \<open>
  The four fetch operations share one body: a GET through \<open>rate_limited_request\<close>, the
  decoded body returned when it is a list, the empty list otherwise, any exception
  re-raised.
\<close>

definition fetch_list :: "string \<Rightarrow> client \<Rightarrow> world \<Rightarrow> json list result \<times> client \<times> world" where
  "fetch_list url c w =
     (case rate_limited_request ''GET'' url c w of
        (Inl err, c1, w1) \<Rightarrow> (Inl err, c1, w1)
      | (Inr data, c1, w1) \<Rightarrow>
          (case data of
             JList xs \<Rightarrow> (Inr xs, c1, w1)
           | _ \<Rightarrow> (Inr [], c1, w1)))"

definition get_temperature_controllers ::
  "client \<Rightarrow> world \<Rightarrow> json list result \<times> client \<times> world" where
  "get_temperature_controllers = fetch_list (API_BASE_URL @ API_CONTROLLERS_ENDPOINT)"

definition get_hydrometers :: "client \<Rightarrow> world \<Rightarrow> json list result \<times> client \<times> world" where
  "get_hydrometers = fetch_list (API_BASE_URL @ API_HYDROMETERS_ENDPOINT)"

definition get_fermentation_chambers ::
  "client \<Rightarrow> world \<Rightarrow> json list result \<times> client \<times> world" where
  "get_fermentation_chambers = fetch_list (API_BASE_URL @ API_FERMENTATION_CHAMBERS_ENDPOINT)"

definition get_brewzillas :: "client \<Rightarrow> world \<Rightarrow> json list result \<times> client \<times> world" where
  "get_brewzillas = fetch_list (API_BASE_URL @ API_BREWZILLAS_ENDPOINT)"

text \<open>The dictionary \<open>get_all_devices\<close> returns has these four keys and no other.\<close>

record all_devices =
  controllers :: "json list"
  hydrometers :: "json list"
  fermentation_chambers :: "json list"
  brewzillas :: "json list"

definition get_all_devices :: "client \<Rightarrow> world \<Rightarrow> all_devices result \<times> client \<times> world" where
  "get_all_devices c w =
     (case get_temperature_controllers c w of
        (Inl e, c1, w1) \<Rightarrow> (Inl e, c1, w1)
      | (Inr cs, c1, w1) \<Rightarrow>
          (case get_hydrometers c1 w1 of
             (Inl e, c2, w2) \<Rightarrow> (Inl e, c2, w2)
           | (Inr hs, c2, w2) \<Rightarrow>
               (case get_fermentation_chambers c2 w2 of
                  (Inl e, c3, w3) \<Rightarrow> (Inl e, c3, w3)
                | (Inr fs, c3, w3) \<Rightarrow>
                    (case get_brewzillas c3 w3 of
                       (Inl e, c4, w4) \<Rightarrow> (Inl e, c4, w4)
                     | (Inr bs, c4, w4) \<Rightarrow>
                         (Inr \<lparr>controllers = cs, hydrometers = hs,
                                fermentation_chambers = fs, brewzillas = bs\<rparr>, c4, w4)))))"

section \<open>The coordinator\<close>

text \<open>
  \<open>UpdateFailed\<close> is raised with one of two message prefixes, followed by the text of the
  exception it was raised from.
\<close>

datatype update_failed = UpdateFailed string pyexc

text \<open>
  The dictionary \<open>_async_update_data\<close> returns: the four category lists, the merged list
  under \<open>devices\<close> and the entry \<open>last_updated\<close>.
\<close>

record snapshot = all_devices +
  snapshot_devices :: "json list"
  last_updated :: bool

text \<open>
  A discovery callback is code of the host side: called with the new device records, it
  completes (\<open>None\<close>) or raises.
\<close>

type_synonym callback = "json list \<Rightarrow> pyexc option"

text \<open>
  The fields of \<open>RaptDataUpdateCoordinator\<close>. \<open>data\<close> and \<open>last_update_success\<close> are the
  attributes it inherits from the host's \<open>DataUpdateCoordinator\<close>: the snapshot the host
  stored after the last successful refresh, and whether the last refresh succeeded.
  Identifiers in the known set are kept under the key a Python set compares them by.
\<close>

record coordinator =
  api_client :: client
  devices :: "json list"
  known_device_ids :: "json set"
  discovery_callbacks :: "callback list"
  data :: "snapshot option"
  last_update_success :: bool

text \<open>Adding to a set hashes the value: lists and dicts are unhashable; \<open>True\<close> and
  \<open>1.0\<close> are the same element as \<open>1\<close>.\<close>

fun hash_key :: "json \<Rightarrow> json result" where
  "hash_key (JList xs) = Inl TypeError"
| "hash_key (JDict kvs) = Inl TypeError"
| "hash_key (JBool b) = Inr (JInt (if b then 1 else 0))"
| "hash_key JNull = Inr JNull"
| "hash_key (JInt n) = Inr (JInt n)"
| "hash_key (JFloat x) = Inr (if of_int \<lfloor>x\<rfloor> = x then JInt \<lfloor>x\<rfloor> else JFloat x)"
| "hash_key (JStr s) = Inr (JStr s)"

fun track_known_devices :: "json list \<Rightarrow> json set \<Rightarrow> unit result \<times> json set" where
  "track_known_devices [] known = (Inr (), known)"
| "track_known_devices (device # rest) known =
     (case py_get device ''id'' JNull of
        Inl e \<Rightarrow> (Inl e, known)
      | Inr device_id \<Rightarrow>
          if truthy device_id then
            (case hash_key device_id of
               Inl e \<Rightarrow> (Inl e, known)
             | Inr k \<Rightarrow> track_known_devices rest (insert k known))
          else track_known_devices rest known)"

definition merged :: "all_devices \<Rightarrow> json list" where
  "merged a = controllers a @ hydrometers a @ fermentation_chambers a @ brewzillas a"

definition raise_update_failed :: "pyexc \<Rightarrow> update_failed" where
  "raise_update_failed err =
     (case err of
        RaptApiError m \<Rightarrow> UpdateFailed ''Error communicating with RAPT API: '' err
      | _ \<Rightarrow> UpdateFailed ''Unexpected error: '' err)"

definition async_update_data ::
  "coordinator \<Rightarrow> world \<Rightarrow> (update_failed + snapshot) \<times> coordinator \<times> world" where
  "async_update_data co w =
     (case get_all_devices (api_client co) w of
        (Inl err, cl, w1) \<Rightarrow> (Inl (raise_update_failed err), co\<lparr>api_client := cl\<rparr>, w1)
      | (Inr a, cl, w1) \<Rightarrow>
          (let co1 = co\<lparr>api_client := cl\<rparr> in
           case track_known_devices (merged a) (known_device_ids co1) of
             (Inl err, known) \<Rightarrow>
               (Inl (raise_update_failed err), co1\<lparr>known_device_ids := known\<rparr>, w1)
           | (Inr u, known) \<Rightarrow>
               (let co2 = co1\<lparr>known_device_ids := known, devices := merged a\<rparr> in
                (Inr \<lparr>controllers = controllers a, hydrometers = hydrometers a,
                       fermentation_chambers = fermentation_chambers a,
                       brewzillas = brewzillas a,
                       snapshot_devices = devices co2,
                       last_updated = last_update_success co2\<rparr>, co2, w1))))"

definition register_discovery_callback :: "callback \<Rightarrow> coordinator \<Rightarrow> coordinator" where
  "register_discovery_callback cb co =
     co\<lparr>discovery_callbacks := discovery_callbacks co @ [cb]\<rparr>"

text \<open>The loop of lines 84 to 90: the known set and \<open>new_devices\<close> as they grow.\<close>

fun discover_loop ::
  "json list \<Rightarrow> json set \<Rightarrow> json list \<Rightarrow> unit result \<times> json set \<times> json list" where
  "discover_loop [] known new_devices = (Inr (), known, new_devices)"
| "discover_loop (device # rest) known new_devices =
     (case py_get device ''id'' JNull of
        Inl e \<Rightarrow> (Inl e, known, new_devices)
      | Inr device_id \<Rightarrow>
          if truthy device_id then
            (case hash_key device_id of
               Inl e \<Rightarrow> (Inl e, known, new_devices)
             | Inr k \<Rightarrow>
                 if k \<notin> known
                 then discover_loop rest (insert k known) (new_devices @ [device])
                 else discover_loop rest known new_devices)
          else discover_loop rest known new_devices)"

text \<open>An awaited call into the host: it is recorded in the trace and takes the time the environment
  says.\<close>

definition await :: "event \<Rightarrow> world \<Rightarrow> world" where
  "await ev w = snd (http ev w)"

text \<open>The loop of lines 94 and 95; \<open>i\<close> counts the callbacks already called.\<close>

fun run_callbacks :: "callback list \<Rightarrow> nat \<Rightarrow> json list \<Rightarrow> world \<Rightarrow> unit result \<times> world" where
  "run_callbacks [] i new_devices w = (Inr (), w)"
| "run_callbacks (cb # cbs) i new_devices w =
     (let w1 = await (CallbackCalled i new_devices) w in
      case cb new_devices of
        Some e \<Rightarrow> (Inl e, w1)
      | None \<Rightarrow> run_callbacks cbs (Suc i) new_devices w1)"

text \<open>
  \<open>async_discover_devices\<close> returns nothing and catches every exception, so its result is
  the coordinator and the world it leaves. \<open>async_request_refresh\<close> belongs to the host; it
  is the event \<open>RefreshRequested\<close>.
\<close>

definition async_discover_devices :: "coordinator \<Rightarrow> world \<Rightarrow> coordinator \<times> world" where
  "async_discover_devices co w =
     (case get_all_devices (api_client co) w of
        (Inl err, cl, w1) \<Rightarrow> (co\<lparr>api_client := cl\<rparr>, w1)
      | (Inr a, cl, w1) \<Rightarrow>
          (let co1 = co\<lparr>api_client := cl\<rparr> in
           case discover_loop (merged a) (known_device_ids co1) [] of
             (Inl err, known, new_devices) \<Rightarrow> (co1\<lparr>known_device_ids := known\<rparr>, w1)
           | (Inr u, known, new_devices) \<Rightarrow>
               (let co2 = co1\<lparr>known_device_ids := known\<rparr> in
                case (if new_devices \<noteq> []
                      then run_callbacks (discovery_callbacks co2) 0 new_devices w1
                      else (Inr (), w1)) of
                  (Inl err, w2) \<Rightarrow> (co2, w2)
                | (Inr u, w2) \<Rightarrow> (co2, await RefreshRequested w2))))"

subsection \<open>The words of the discovery claim\<close>

text \<open>
  The identifier a record carries, under the key the known set compares it by: the value
  of \<open>id\<close> when the record is a JSON object, the value is truthy and it can be hashed.
  A record is well formed when it is a JSON object whose \<open>id\<close>, if truthy, can be hashed
  (a string, a number or a boolean); the loops raise on any other.
\<close>

definition carried_id :: "json \<Rightarrow> json option" where
  "carried_id d =
     (case py_get d ''id'' JNull of
        Inl e \<Rightarrow> None
      | Inr v \<Rightarrow>
          if truthy v then (case hash_key v of Inl e \<Rightarrow> None | Inr k \<Rightarrow> Some k) else None)"

definition well_formed_record :: "json \<Rightarrow> bool" where
  "well_formed_record d =
     (case py_get d ''id'' JNull of
        Inl e \<Rightarrow> False
      | Inr v \<Rightarrow> truthy v \<longrightarrow> (case hash_key v of Inl e \<Rightarrow> False | Inr k \<Rightarrow> True))"

text \<open>
  The records of a fetch that are new with respect to a known set: those that carry an
  identifier which is not in the set and which no earlier record of the fetch carries.
\<close>

definition is_first_unknown :: "json set \<Rightarrow> json list \<Rightarrow> nat \<Rightarrow> bool" where
  "is_first_unknown known ds i =
     (case carried_id (ds ! i) of
        None \<Rightarrow> False
      | Some k \<Rightarrow> k \<notin> known \<and> Some k \<notin> carried_id ` set (take i ds))"

definition first_unknown :: "json set \<Rightarrow> json list \<Rightarrow> json list" where
  "first_unknown known ds =
     map ((!) ds) (filter (is_first_unknown known ds) [0..<length ds])"

section \<open>The sensor entity\<close>

text \<open>
  What \<open>native_value\<close> returns is an integer, a floating-point number or a string.
  The type \<open>'f\<close> of floating-point numbers is a parameter of the model, and so are the
  floating-point number a decoded JSON number is, Python's \<open>float(s)\<close> and \<open>int(s)\<close> on
  a string (\<open>None\<close> when they raise \<open>ValueError\<close>) and \<open>str(v)\<close> on a list or dict.
\<close>

datatype 'f sensor_value = IntValue int | FloatValue 'f | StrValue string

record 'f builtins =
  float_of :: "rat \<Rightarrow> 'f"
  py_float :: "string \<Rightarrow> 'f option"
  py_int :: "string \<Rightarrow> int option"
  py_str :: "json \<Rightarrow> string"

text \<open>The fields of \<open>RaptSensor\<close> the value depends on; \<open>key\<close> is \<open>entity_description.key\<close>.\<close>

record sensor =
  device_id :: string
  device_name :: string
  device_type :: string
  key :: string

fun parse_value :: "'f builtins \<Rightarrow> json \<Rightarrow> 'f sensor_value option" where
  "parse_value B JNull = None"
| "parse_value B (JBool b) = Some (IntValue (if b then 100 else 0))"
| "parse_value B (JInt n) = Some (IntValue n)"
| "parse_value B (JFloat x) = Some (FloatValue (float_of B x))"
| "parse_value B (JStr s) =
     (case py_float B s of
        Some x \<Rightarrow> Some (FloatValue x)
      | None \<Rightarrow>
          (case py_int B s of
             Some n \<Rightarrow> Some (IntValue n)
           | None \<Rightarrow> Some (StrValue s)))"
| "parse_value B (JList xs) = Some (StrValue (py_str B (JList xs)))"
| "parse_value B (JDict kvs) = Some (StrValue (py_str B (JDict kvs)))"

text \<open>The search loop of \<open>native_value\<close>: the first record whose \<open>id\<close> equals the device id.\<close>

fun find_device :: "json list \<Rightarrow> string \<Rightarrow> json option result" where
  "find_device [] i = Inr None"
| "find_device (dev # rest) i =
     (case py_get dev ''id'' JNull of
        Inl e \<Rightarrow> Inl e
      | Inr v \<Rightarrow> if v = JStr i then Inr (Some dev) else find_device rest i)"

definition native_value ::
  "'f builtins \<Rightarrow> sensor \<Rightarrow> coordinator \<Rightarrow> 'f sensor_value option result" where
  "native_value B s co =
     (case data co of
        None \<Rightarrow> Inr None
      | Some d \<Rightarrow>
          (let devs = (if device_type s = ''TemperatureController''
                       then controllers d else hydrometers d)
           in case find_device devs (device_id s) of
                Inl e \<Rightarrow> Inl e
              | Inr None \<Rightarrow> Inr None
              | Inr (Some device) \<Rightarrow>
                  if \<not> truthy device then Inr None
                  else
                    (case py_in (key s) device of
                       Inl e \<Rightarrow> Inl e
                     | Inr True \<Rightarrow>
                         (case py_getitem device (key s) of
                            Inl e \<Rightarrow> Inl e
                          | Inr v \<Rightarrow> Inr (parse_value B v))
                     | Inr False \<Rightarrow>
                         (case py_in ''telemetry'' device of
                            Inl e \<Rightarrow> Inl e
                          | Inr False \<Rightarrow> Inr None
                          | Inr True \<Rightarrow>
                              (case py_getitem device ''telemetry'' of
                                 Inl e \<Rightarrow> Inl e
                               | Inr (JList (latest_telemetry # older)) \<Rightarrow>
                                   (case py_in (key s) latest_telemetry of
                                      Inl e \<Rightarrow> Inl e
                                    | Inr True \<Rightarrow>
                                        (case py_getitem latest_telemetry (key s) of
                                           Inl e \<Rightarrow> Inl e
                                         | Inr v \<Rightarrow> Inr (parse_value B v))
                                    | Inr False \<Rightarrow> Inr None)
                               | Inr other \<Rightarrow> Inr None)))))"

definition available :: "'f builtins \<Rightarrow> sensor \<Rightarrow> coordinator \<Rightarrow> bool result" where
  "available B s co =
     (if \<not> last_update_success co then Inr False
      else
        (case native_value B s co of
           Inl e \<Rightarrow> Inl e
         | Inr v \<Rightarrow> Inr (v \<noteq> None)))"

section \<open>The rate-limit gate under concurrent callers\<close>

text \<open>
  Several tasks of the one event loop may be inside \<open>_rate_limited_request\<close> of one client
  at a time. Each is at one of these places: not calling (\<open>Idle\<close>); waiting at
  \<open>async with self._rate_limit_lock\<close> (\<open>AtLock\<close>); holding the lock before line 104
  (\<open>Entered\<close>); holding it with \<open>sleep_time\<close> computed, before the call of
  \<open>asyncio.sleep\<close> (\<open>ToSleep\<close>); suspended in the sleep until an instant (\<open>Sleeping\<close>);
  before the stamp of line 111 (\<open>ToStamp\<close>); and in lines 113 to 161, authentication and
  the request (\<open>InFlight\<close>), which end by leaving the block and releasing the lock.
\<close>

datatype pc = Idle | AtLock | Entered | ToSleep int | Sleeping int | ToStamp | InFlight

text \<open>
  The shared state: the clock, the lock, \<open>_last_request_time\<close>, and the instants
  stamped so far, oldest first.
\<close>

record gate =
  time :: int
  locked :: bool
  last_request :: "int option"
  stamped :: "int list"
  pcs :: "nat \<Rightarrow> pc"

text \<open>
  One step of the event loop: time passes, or one task moves on. The clock does not run
  backwards, and a sleeping task is not resumed before the instant it asked for.
  \<open>Finish\<close> is the end of the call, by a return or by an exception. \<open>Cancel\<close> is the
  cancellation of a task suspended at the lock or in the sleep: it leaves the call, and
  leaving the \<open>async with\<close> block releases the lock it holds.
\<close>

datatype action =
    Tick nat
  | Call nat
  | Acquire nat
  | Check nat
  | StartSleep nat
  | Wake nat
  | Stamp nat
  | Finish nat
  | Cancel nat

fun exec :: "action \<Rightarrow> gate \<Rightarrow> gate option" where
  "exec (Tick d) g = Some (g\<lparr>time := time g + int d\<rparr>)"
| "exec (Call i) g =
     (if pcs g i = Idle then Some (g\<lparr>pcs := (pcs g)(i := AtLock)\<rparr>) else None)"
| "exec (Acquire i) g =
     (if pcs g i = AtLock \<and> \<not> locked g
      then Some (g\<lparr>locked := True, pcs := (pcs g)(i := Entered)\<rparr>) else None)"
| "exec (Check i) g =
     (if pcs g i = Entered
      then Some (g\<lparr>pcs := (pcs g)(i :=
                   (case required_sleep (last_request g) (time g) of
                      None \<Rightarrow> ToStamp
                    | Some sleep_time \<Rightarrow> ToSleep sleep_time))\<rparr>)
      else None)"
| "exec (StartSleep i) g =
     (case pcs g i of
        ToSleep sleep_time \<Rightarrow> Some (g\<lparr>pcs := (pcs g)(i := Sleeping (time g + sleep_time))\<rparr>)
      | _ \<Rightarrow> None)"
| "exec (Wake i) g =
     (case pcs g i of
        Sleeping until \<Rightarrow>
          if until \<le> time g then Some (g\<lparr>pcs := (pcs g)(i := ToStamp)\<rparr>) else None
      | _ \<Rightarrow> None)"
| "exec (Stamp i) g =
     (if pcs g i = ToStamp
      then Some (g\<lparr>last_request := Some (time g), stamped := stamped g @ [time g],
                   pcs := (pcs g)(i := InFlight)\<rparr>)
      else None)"
| "exec (Finish i) g =
     (if pcs g i = InFlight
      then Some (g\<lparr>locked := False, pcs := (pcs g)(i := Idle)\<rparr>) else None)"
| "exec (Cancel i) g =
     (case pcs g i of
        AtLock \<Rightarrow> Some (g\<lparr>pcs := (pcs g)(i := Idle)\<rparr>)
      | Sleeping until \<Rightarrow> Some (g\<lparr>locked := False, pcs := (pcs g)(i := Idle)\<rparr>)
      | _ \<Rightarrow> None)"

fun run :: "action list \<Rightarrow> gate \<Rightarrow> gate option" where
  "run [] g = Some g"
| "run (a # as) g = (case exec a g of None \<Rightarrow> None | Some g' \<Rightarrow> run as g')"

definition init :: "int \<Rightarrow> gate" where
  "init t0 = \<lparr>time = t0, locked = False, last_request = None, stamped = [],
              pcs = (\<lambda>i. Idle)\<rparr>"

definition in_gate :: "pc \<Rightarrow> bool" where
  "in_gate p = (p \<noteq> Idle \<and> p \<noteq> AtLock)"

text \<open>
  The stamped instants are spaced when each is at least 15 seconds after the one before. The
  invariant of the gate: the stamped instants are spaced and the last of them is
  \<open>_last_request_time\<close>; at most one task is past the lock, and none when the lock is
  free; and the task past the lock, if it has not stamped yet, cannot stamp before 15
  seconds after the last stamp.
\<close>

definition spaced :: "int list \<Rightarrow> bool" where
  "spaced ts = successively (\<lambda>a b. 15000000 \<le> b - a) ts"

definition gate_inv :: "gate \<Rightarrow> bool" where
  "gate_inv g =
     (spaced (stamped g)
      \<and> last_request g = (if stamped g = [] then None else Some (last (stamped g)))
      \<and> (\<forall>i j. in_gate (pcs g i) \<and> in_gate (pcs g j) \<longrightarrow> i = j)
      \<and> (\<not> locked g \<longrightarrow> (\<forall>i. \<not> in_gate (pcs g i)))
      \<and> (\<forall>i d t. pcs g i = ToSleep d \<and> last_request g = Some t \<longrightarrow>
             t + 15000000 \<le> time g + d)
      \<and> (\<forall>i u t. pcs g i = Sleeping u \<and> last_request g = Some t \<longrightarrow>
             t + 15000000 \<le> u)
      \<and> (\<forall>i t. pcs g i = ToStamp \<and> last_request g = Some t \<longrightarrow>
             t + 15000000 \<le> time g))"

text \<open>
  The gate as one call finds it, from the client and the world of \<open>rate_limited_request\<close>:
  the lock free, the clock and the stamp as they are there. And the steps of a task that
  goes through the gate with no other task about: it takes the lock, checks the spacing,
  sleeps if it has to, for the time asked and the lag the world adds to it, and stamps.
\<close>

definition gate_of :: "client \<Rightarrow> world \<Rightarrow> gate" where
  "gate_of c w = \<lparr>time = clock w, locked = False, last_request = last_request_time c,
                  stamped = [], pcs = (\<lambda>i. Idle)\<rparr>"

definition alone :: "nat \<Rightarrow> client \<Rightarrow> world \<Rightarrow> action list" where
  "alone i c w =
     [Call i, Acquire i, Check i]
     @ (case required_sleep (last_request_time c) (clock w) of
          None \<Rightarrow> []
        | Some sleep_time \<Rightarrow>
            [StartSleep i, Tick (nat sleep_time + fst (env w (length (trace w)))), Wake i])
     @ [Stamp i]"

section \<open>Concrete inputs\<close>

text \<open>A client that has never authenticated, a world that starts one second after
  \<open>datetime.min\<close> with a given environment (of floating-point durations it knows the one
  of 3600.5 seconds, which is exact), and some replies of the server.\<close>

definition fresh_client :: client where
  "fresh_client = \<lparr>username = ''brewer'', api_secret = ''secret'', bearer_token = JNull,
                    token_expires_at = None, last_request_time = None\<rparr>"

definition replying :: "(nat \<Rightarrow> nat \<times> net_result) \<Rightarrow> world" where
  "replying e = \<lparr>clock = 1000000, env = e, trace = [],
                  float_timedelta = (\<lambda>x. if x = 7201 / 2 then Inr 3600500000 else Inl OverflowError)\<rparr>"

definition reply :: "int \<Rightarrow> decoding \<Rightarrow> net_result" where
  "reply st j = Response \<lparr>status = st, body_text = ''body'', json_body = j\<rparr>"

definition token_reply :: net_result where
  "token_reply = reply 200 (Decoded (JDict [(''access_token'', JStr ''T1'')]))"


text \<open>
  A device record with an \<open>id\<close>, and the environment of one poll by a client without a
  token: event 0 is the token request, events 1, 3, 5 and 7 are the four GET requests (the
  events between them are the sleeps of the rate limit), answered with the four given
  bodies.
\<close>

definition dev :: "string \<Rightarrow> json" where
  "dev i = JDict [(''id'', JStr i)]"

definition serving :: "json \<Rightarrow> json \<Rightarrow> json \<Rightarrow> json \<Rightarrow> nat \<Rightarrow> nat \<times> net_result" where
  "serving a b c d k =
     (if k = 0 then (0, token_reply)
      else if k = 1 then (0, reply 200 (Decoded a))
      else if k = 3 then (0, reply 200 (Decoded b))
      else if k = 5 then (0, reply 200 (Decoded c))
      else (0, reply 200 (Decoded d)))"

text \<open>
  A coordinator after a successful poll that found device \<open>A\<close>, and an environment in
  which the token request succeeds and every request after it is refused.
\<close>

definition idle_coordinator :: coordinator where
  "idle_coordinator =
     \<lparr>api_client = fresh_client, devices = [dev ''A''], known_device_ids = {JStr ''A''},
      discovery_callbacks = [],
      data = Some \<lparr>controllers = [dev ''A''], hydrometers = [], fermentation_chambers = [],
                   brewzillas = [], snapshot_devices = [dev ''A''], last_updated = True\<rparr>,
      last_update_success = True\<rparr>"

definition refusing :: "nat \<Rightarrow> nat \<times> net_result" where
  "refusing k = (if k = 0 then (0, token_reply) else (0, ClientError ''connection refused''))"

text \<open>
  A sensor of a fermentation chamber whose record is in the snapshot, under
  \<open>fermentation_chambers\<close>, with the value the sensor is for; and builtins that parse
  nothing.
\<close>

definition no_parsing :: "unit builtins" where
  "no_parsing = \<lparr>float_of = (\<lambda>x. ()), py_float = (\<lambda>s. None), py_int = (\<lambda>s. None),
                  py_str = (\<lambda>v. [])\<rparr>"

definition chamber_sensor :: sensor where
  "chamber_sensor = \<lparr>device_id = ''F1'', device_name = ''Chamber'',
                      device_type = ''FermentationChamber'', key = ''temperature''\<rparr>"

definition chamber_coordinator :: coordinator where
  "chamber_coordinator =
     \<lparr>api_client = fresh_client, devices = [], known_device_ids = {JStr ''F1'', JStr ''H1''},
      discovery_callbacks = [],
      data = Some \<lparr>controllers = [], hydrometers = [dev ''H1''],
                   fermentation_chambers =
                     [JDict [(''id'', JStr ''F1''), (''temperature'', JInt 18)]],
                   brewzillas = [],
                   snapshot_devices =
                     [dev ''H1'', JDict [(''id'', JStr ''F1''), (''temperature'', JInt 18)]],
                   last_updated = True\<rparr>,
      last_update_success = True\<rparr>"

text \<open>
  Two servers that answer the first GET with a 401: one refuses the re-authentication
  with a 503, the other grants a second token and answers the retry with a 401 again.
  With them, the client and the world as the first token request leaves them.
\<close>

definition rejecting :: "nat \<Rightarrow> nat \<times> net_result" where
  "rejecting k =
     (if k = 0 then (0, token_reply)
      else if k = 1 then (0, reply 401 RaisesContentTypeError)
      else (0, reply 503 RaisesContentTypeError))"

definition rejecting_twice :: "nat \<Rightarrow> nat \<times> net_result" where
  "rejecting_twice k =
     (if k = 0 then (0, token_reply)
      else if k = 1 then (0, reply 401 RaisesContentTypeError)
      else if k = 2 then (0, reply 200 (Decoded (JDict [(''access_token'', JStr ''T2'')])))
      else (0, reply 401 RaisesContentTypeError))"

definition token_client :: "string \<Rightarrow> client" where
  "token_client tok = fresh_client\<lparr>bearer_token := JStr tok, token_expires_at := Some 2701000000,
                                  last_request_time := Some 1000000\<rparr>"

definition after_login :: "(nat \<Rightarrow> nat \<times> net_result) \<Rightarrow> world" where
  "after_login e = (replying e)\<lparr>trace := [auth_post fresh_client]\<rparr>"

text \<open>
  Three more servers. The first takes 14 seconds to grant the token and one second to
  answer the first GET. The second answers the first GET with a 401, grants a second
  token and answers the retry; each of its replies takes 3 microseconds. The third
  answers every request at once with an empty list.
\<close>

definition slow_login :: "nat \<Rightarrow> nat \<times> net_result" where
  "slow_login k =
     (if k = 0 then (14000000, token_reply)
      else if k = 1 then (1000000, reply 200 (Decoded (JList [])))
      else (0, reply 200 (Decoded (JList []))))"

definition rejecting_once :: "nat \<Rightarrow> nat \<times> net_result" where
  "rejecting_once k =
     (if k = 0 then (3, token_reply)
      else if k = 1 then (3, reply 401 RaisesContentTypeError)
      else if k = 2 then (3, reply 200 (Decoded (JDict [(''access_token'', JStr ''T2'')])))
      else (3, reply 200 (Decoded (JList []))))"

definition quiet :: "nat \<Rightarrow> nat \<times> net_result" where
  "quiet k = (0, reply 200 (Decoded (JList [])))"

text \<open>
  A record with an \<open>id\<close> and a name, a callback that completes and one that raises, and
  a coordinator that knows the devices \<open>A\<close> and \<open>B\<close> and has the given callbacks.
\<close>

definition named :: "string \<Rightarrow> string \<Rightarrow> json" where
  "named i n = JDict [(''id'', JStr i), (''name'', JStr n)]"

definition completes :: callback where
  "completes new_devices = None"

definition raises :: callback where
  "raises new_devices = Some TypeError"

definition listening :: "callback list \<Rightarrow> coordinator" where
  "listening cbs = idle_coordinator\<lparr>known_device_ids := {JStr ''A'', JStr ''B''},
                                     discovery_callbacks := cbs\<rparr>"

section \<open>Evaluating the model\<close>

lemmas eval_defs = get_all_devices_def get_temperature_controllers_def get_hydrometers_def
                  get_fermentation_chambers_def get_brewzillas_def fetch_list_def rate_limited_request_def
         request_with_retry_def
         ensure_authenticated_def authenticate_def http_def sleep_def required_sleep_def
         fresh_client_def replying_def serving_def token_reply_def reply_def
         timedelta_of_micros_def datetime_add_def datetime_max_def Let_def
         API_BASE_URL_def API_CONTROLLERS_ENDPOINT_def API_HYDROMETERS_ENDPOINT_def
         API_FERMENTATION_CHAMBERS_ENDPOINT_def API_BREWZILLAS_ENDPOINT_def

lemmas coord_defs = async_update_data_def raise_update_failed_def merged_def
  idle_coordinator_def refusing_def dev_def

lemmas call_defs = rate_limited_request_def request_with_retry_def
         ensure_authenticated_def authenticate_def http_def sleep_def required_sleep_def
         fresh_client_def token_client_def replying_def token_reply_def reply_def
         timedelta_of_micros_def datetime_add_def datetime_max_def Let_def

lemma triple_of_fst: "fst p = a \<Longrightarrow> p = (a, fst (snd p), snd (snd p))"
  by (cases p) auto


section \<open>Authentication\<close>

lemma authenticate_trace: "trace (snd (snd (authenticate c w))) = trace w @ [auth_post c]"
  by (simp add: authenticate_def http_def Let_def
           split: prod.splits net_result.splits option.splits decoding.splits sum.splits bool.splits)

text \<open>
  Claim C6. \<open>ensure_authenticated\<close> makes no network call if and only if a bearer token
  exists and the clock is strictly before the expiry instant: then it returns at once with
  the client and the world as they were. In every other state (no token, no expiry, or
  the clock at or past the expiry) it is one call of \<open>authenticate\<close>, which issues exactly
  one request, the POST to the token endpoint.
\<close>

theorem ensure_authenticated_calls:
  "((trace (snd (snd (ensure_authenticated c w))) = trace w) =
      (bearer_token c \<noteq> JNull \<and> (\<exists>t. token_expires_at c = Some t \<and> clock w < t)))
   \<and> (bearer_token c \<noteq> JNull \<and> (\<exists>t. token_expires_at c = Some t \<and> clock w < t) \<longrightarrow>
        ensure_authenticated c w = (Inr (), c, w))
   \<and> (\<not> (bearer_token c \<noteq> JNull \<and> (\<exists>t. token_expires_at c = Some t \<and> clock w < t)) \<longrightarrow>
        ensure_authenticated c w = authenticate c w
        \<and> trace (snd (snd (ensure_authenticated c w))) = trace w @ [auth_post c])"
  by (auto simp: ensure_authenticated_def authenticate_trace split: option.splits)

theorem ensure_authenticated_calls_witness:
  "ensure_authenticated
      (fresh_client\<lparr>bearer_token := JStr ''T0'', token_expires_at := Some 1000001\<rparr>)
      (replying (\<lambda>k. (0, token_reply)))
     = (Inr (), fresh_client\<lparr>bearer_token := JStr ''T0'', token_expires_at := Some 1000001\<rparr>,
        replying (\<lambda>k. (0, token_reply)))
   \<and> trace (snd (snd (ensure_authenticated
         (fresh_client\<lparr>bearer_token := JStr ''T0'', token_expires_at := Some 1000000\<rparr>)
         (replying (\<lambda>k. (0, token_reply))))))
     = [auth_post (fresh_client\<lparr>bearer_token := JStr ''T0'', token_expires_at := Some 1000000\<rparr>)]
   \<and> trace (snd (snd (ensure_authenticated fresh_client (replying (\<lambda>k. (0, token_reply))))))
     = [auth_post fresh_client]"
proof -
  let ?w = "replying (\<lambda>k. (0, token_reply))"
  let ?c1 = "fresh_client\<lparr>bearer_token := JStr ''T0'', token_expires_at := Some 1000001\<rparr>"
  let ?c2 = "fresh_client\<lparr>bearer_token := JStr ''T0'', token_expires_at := Some 1000000\<rparr>"
  have v1: "bearer_token ?c1 \<noteq> JNull \<and> (\<exists>t. token_expires_at ?c1 = Some t \<and> clock ?w < t)"
    by (simp add: replying_def)
  have v2: "\<not> (bearer_token ?c2 \<noteq> JNull \<and> (\<exists>t. token_expires_at ?c2 = Some t \<and> clock ?w < t))"
    by (simp add: replying_def)
  have v3: "\<not> (bearer_token fresh_client \<noteq> JNull
               \<and> (\<exists>t. token_expires_at fresh_client = Some t \<and> clock ?w < t))"
    by (simp add: fresh_client_def)
  have l: "trace ?w = []" by (simp add: replying_def)
  from ensure_authenticated_calls [of ?c1 ?w] v1
  have 1: "ensure_authenticated ?c1 ?w = (Inr (), ?c1, ?w)" by blast
  from ensure_authenticated_calls [of ?c2 ?w] v2
  have 2: "trace (snd (snd (ensure_authenticated ?c2 ?w))) = trace ?w @ [auth_post ?c2]" by blast
  from ensure_authenticated_calls [of fresh_client ?w] v3
  have 3: "trace (snd (snd (ensure_authenticated fresh_client ?w)))
             = trace ?w @ [auth_post fresh_client]"
    by blast
  from 1 2 3 l show ?thesis by simp
qed



text \<open>
  A client that holds a token not yet expired and whose re-authentication is refused
  keeps that token and that expiry, so the next \<open>ensure_authenticated\<close> returns at once
  and attempts no authentication. And two bodies of a 200 reply raise no error of the
  response format: the body \<open>null\<close> makes the test \<open>"access_token" not in token_data\<close>
  raise \<open>TypeError\<close>, and a body labelled JSON that cannot be decoded lets
  \<open>json.JSONDecodeError\<close> through, which the handler of \<open>ContentTypeError\<close> does not
  catch.
\<close>

theorem authenticate_failures_counterexample:
  "authenticate (token_client ''T0'') (replying (\<lambda>k. (5, reply 401 RaisesContentTypeError)))
     = (Inl (RaptApiError ''Authentication failed: Invalid username or API key''),
        token_client ''T0'',
        (replying (\<lambda>k. (5, reply 401 RaisesContentTypeError)))
          \<lparr>clock := 1000005, trace := [auth_post (token_client ''T0'')]\<rparr>)
   \<and> ensure_authenticated (token_client ''T0'')
        ((replying (\<lambda>k. (5, reply 401 RaisesContentTypeError)))
           \<lparr>clock := 1000005, trace := [auth_post (token_client ''T0'')]\<rparr>)
     = (Inr (), token_client ''T0'',
        (replying (\<lambda>k. (5, reply 401 RaisesContentTypeError)))
          \<lparr>clock := 1000005, trace := [auth_post (token_client ''T0'')]\<rparr>)
   \<and> authenticate fresh_client (replying (\<lambda>k. (5, reply 200 (Decoded JNull))))
     = (Inl TypeError, fresh_client,
        (replying (\<lambda>k. (5, reply 200 (Decoded JNull))))
          \<lparr>clock := 1000005, trace := [auth_post fresh_client]\<rparr>)
   \<and> authenticate fresh_client (replying (\<lambda>k. (5, reply 200 RaisesJSONDecodeError)))
     = (Inl JSONDecodeError, fresh_client,
        (replying (\<lambda>k. (5, reply 200 RaisesJSONDecodeError)))
          \<lparr>clock := 1000005, trace := [auth_post fresh_client]\<rparr>)"
  by (simp add: authenticate_def ensure_authenticated_def http_def replying_def reply_def
                token_client_def fresh_client_def)

text \<open>
  Claim C8, as the code has it. When the token endpoint replies with a status other than
  200, \<open>authenticate\<close> raises the authentication error: with the message of invalid
  credentials for 400 and for 401, with the message that names the HTTP status for any
  other. When
  the reply is a 200 whose body \<open>response.json()\<close> refuses with \<open>ContentTypeError\<close>, or is
  a JSON object, array or string in which \<open>access_token\<close> does not occur, it raises the
  error of a bad response format. In each of these cases no token is stored: the client
  is returned as it was, token and expiry untouched. So the next \<open>ensure_authenticated\<close>
  of the client that comes back attempts authentication exactly when that client holds
  no token that is still valid, as it would have before the failed call; and it returns
  at once otherwise.
\<close>

theorem authenticate_failures:
  assumes "env w (length (trace w)) = (took, Response r)"
  shows "(status r = 400 \<or> status r = 401 \<longrightarrow>
            authenticate c w =
              (Inl (RaptApiError ''Authentication failed: Invalid username or API key''), c,
               w\<lparr>clock := clock w + int took, trace := trace w @ [auth_post c]\<rparr>))
       \<and> (status r \<noteq> 200 \<and> status r \<noteq> 400 \<and> status r \<noteq> 401 \<longrightarrow>
            authenticate c w =
              (Inl (RaptApiError (''Authentication failed: HTTP '' @ str_int (status r))), c,
               w\<lparr>clock := clock w + int took, trace := trace w @ [auth_post c]\<rparr>))
       \<and> (status r = 200 \<and> json_body r = RaisesContentTypeError \<longrightarrow>
            authenticate c w =
              (Inl (RaptApiError ''Authentication failed: Invalid response format''), c,
               w\<lparr>clock := clock w + int took, trace := trace w @ [auth_post c]\<rparr>))
       \<and> (status r = 200
            \<and> ((\<exists>kvs. json_body r = Decoded (JDict kvs) \<and> map_of kvs ''access_token'' = None)
                \<or> (\<exists>xs. json_body r = Decoded (JList xs) \<and> JStr ''access_token'' \<notin> set xs)
                \<or> (\<exists>s. json_body r = Decoded (JStr s) \<and> \<not> sublist ''access_token'' s)) \<longrightarrow>
            authenticate c w =
              (Inl (RaptApiError ''No access token received from API''), c,
               w\<lparr>clock := clock w + int took, trace := trace w @ [auth_post c]\<rparr>))
       \<and> (status r \<noteq> 200 \<or> json_body r = RaisesContentTypeError
            \<or> ((\<exists>kvs. json_body r = Decoded (JDict kvs) \<and> map_of kvs ''access_token'' = None)
                \<or> (\<exists>xs. json_body r = Decoded (JList xs) \<and> JStr ''access_token'' \<notin> set xs)
                \<or> (\<exists>s. json_body r = Decoded (JStr s) \<and> \<not> sublist ''access_token'' s)) \<longrightarrow>
            (\<forall>w'. ensure_authenticated (fst (snd (authenticate c w))) w' =
                    (if bearer_token c \<noteq> JNull \<and> (\<exists>t. token_expires_at c = Some t \<and> clock w' < t)
                     then (Inr (), c, w')
                     else authenticate c w')))"
proof -
  have same: "status r \<noteq> 200 \<or> json_body r = RaisesContentTypeError
            \<or> ((\<exists>kvs. json_body r = Decoded (JDict kvs) \<and> map_of kvs ''access_token'' = None)
                \<or> (\<exists>xs. json_body r = Decoded (JList xs) \<and> JStr ''access_token'' \<notin> set xs)
                \<or> (\<exists>s. json_body r = Decoded (JStr s) \<and> \<not> sublist ''access_token'' s)) \<Longrightarrow>
            fst (snd (authenticate c w)) = c"
    using assms by (auto simp: authenticate_def http_def)
  have again: "\<And>w'. ensure_authenticated c w' =
                    (if bearer_token c \<noteq> JNull \<and> (\<exists>t. token_expires_at c = Some t \<and> clock w' < t)
                     then (Inr (), c, w')
                     else authenticate c w')"
    by (auto simp: ensure_authenticated_def split: option.splits)
  from assms have first:
        "(status r = 400 \<or> status r = 401 \<longrightarrow>
            authenticate c w =
              (Inl (RaptApiError ''Authentication failed: Invalid username or API key''), c,
               w\<lparr>clock := clock w + int took, trace := trace w @ [auth_post c]\<rparr>))
       \<and> (status r \<noteq> 200 \<and> status r \<noteq> 400 \<and> status r \<noteq> 401 \<longrightarrow>
            authenticate c w =
              (Inl (RaptApiError (''Authentication failed: HTTP '' @ str_int (status r))), c,
               w\<lparr>clock := clock w + int took, trace := trace w @ [auth_post c]\<rparr>))
       \<and> (status r = 200 \<and> json_body r = RaisesContentTypeError \<longrightarrow>
            authenticate c w =
              (Inl (RaptApiError ''Authentication failed: Invalid response format''), c,
               w\<lparr>clock := clock w + int took, trace := trace w @ [auth_post c]\<rparr>))
       \<and> (status r = 200
            \<and> ((\<exists>kvs. json_body r = Decoded (JDict kvs) \<and> map_of kvs ''access_token'' = None)
                \<or> (\<exists>xs. json_body r = Decoded (JList xs) \<and> JStr ''access_token'' \<notin> set xs)
                \<or> (\<exists>s. json_body r = Decoded (JStr s) \<and> \<not> sublist ''access_token'' s)) \<longrightarrow>
            authenticate c w =
              (Inl (RaptApiError ''No access token received from API''), c,
               w\<lparr>clock := clock w + int took, trace := trace w @ [auth_post c]\<rparr>))"
    by (auto simp: authenticate_def http_def)
  from same again have last:
        "status r \<noteq> 200 \<or> json_body r = RaisesContentTypeError
            \<or> ((\<exists>kvs. json_body r = Decoded (JDict kvs) \<and> map_of kvs ''access_token'' = None)
                \<or> (\<exists>xs. json_body r = Decoded (JList xs) \<and> JStr ''access_token'' \<notin> set xs)
                \<or> (\<exists>s. json_body r = Decoded (JStr s) \<and> \<not> sublist ''access_token'' s)) \<longrightarrow>
            (\<forall>w'. ensure_authenticated (fst (snd (authenticate c w))) w' =
                    (if bearer_token c \<noteq> JNull \<and> (\<exists>t. token_expires_at c = Some t \<and> clock w' < t)
                     then (Inr (), c, w')
                     else authenticate c w'))"
    by simp
  from first last show ?thesis by blast
qed

theorem authenticate_failures_witness:
  "authenticate fresh_client (replying (\<lambda>k. (5, reply 400 RaisesContentTypeError)))
     = (Inl (RaptApiError ''Authentication failed: Invalid username or API key''), fresh_client,
        (replying (\<lambda>k. (5, reply 400 RaisesContentTypeError)))\<lparr>clock := 1000005, trace := [auth_post fresh_client]\<rparr>)
   \<and> authenticate fresh_client (replying (\<lambda>k. (5, reply 503 RaisesContentTypeError)))
     = (Inl (RaptApiError ''Authentication failed: HTTP 503''), fresh_client,
        (replying (\<lambda>k. (5, reply 503 RaisesContentTypeError)))\<lparr>clock := 1000005, trace := [auth_post fresh_client]\<rparr>)
   \<and> authenticate fresh_client (replying (\<lambda>k. (5, reply 200 RaisesContentTypeError)))
     = (Inl (RaptApiError ''Authentication failed: Invalid response format''), fresh_client,
        (replying (\<lambda>k. (5, reply 200 RaisesContentTypeError)))\<lparr>clock := 1000005, trace := [auth_post fresh_client]\<rparr>)
   \<and> authenticate fresh_client (replying (\<lambda>k. (5, reply 200 (Decoded (JDict [(''error'', JStr ''x'')])))))
     = (Inl (RaptApiError ''No access token received from API''), fresh_client,
        (replying (\<lambda>k. (5, reply 200 (Decoded (JDict [(''error'', JStr ''x'')])))))
          \<lparr>clock := 1000005, trace := [auth_post fresh_client]\<rparr>)
   \<and> ensure_authenticated
        (fst (snd (authenticate fresh_client (replying (\<lambda>k. (5, reply 400 RaisesContentTypeError))))))
        (replying (\<lambda>k. (5, token_reply)))
     = authenticate fresh_client (replying (\<lambda>k. (5, token_reply)))
   \<and> ensure_authenticated
        (fst (snd (authenticate (token_client ''T0'')
                     (replying (\<lambda>k. (5, reply 400 RaisesContentTypeError))))))
        (replying (\<lambda>k. (5, token_reply)))
     = (Inr (), token_client ''T0'', replying (\<lambda>k. (5, token_reply)))"
proof -
  let ?r1 = "\<lparr>status = 400, body_text = ''body'', json_body = RaisesContentTypeError\<rparr>"
  let ?r2 = "\<lparr>status = 503, body_text = ''body'', json_body = RaisesContentTypeError\<rparr>"
  let ?r3 = "\<lparr>status = 200, body_text = ''body'', json_body = RaisesContentTypeError\<rparr>"
  let ?r4 = "\<lparr>status = 200, body_text = ''body'', json_body = Decoded (JDict [(''error'', JStr ''x'')])\<rparr>"
  have e: "\<And>st j. env (replying (\<lambda>k. (5, reply st j))) (length (trace (replying (\<lambda>k. (5, reply st j)))))
             = (5, Response \<lparr>status = st, body_text = ''body'', json_body = j\<rparr>)"
    by (simp add: replying_def reply_def)
  have n: "bearer_token fresh_client = JNull" by (simp add: fresh_client_def)
  have v: "bearer_token (token_client ''T0'') \<noteq> JNull
           \<and> (\<exists>t. token_expires_at (token_client ''T0'') = Some t
                  \<and> clock (replying (\<lambda>k. (5, token_reply))) < t)"
    by (simp add: token_client_def fresh_client_def replying_def)
  have s: "str_int 503 = ''503''" by (simp add: str_int_def str_nat.simps digit_def)
  note t1 = authenticate_failures [OF e [of 400 RaisesContentTypeError], of fresh_client]
  note t2 = authenticate_failures [OF e [of 503 RaisesContentTypeError], of fresh_client]
  note t3 = authenticate_failures [OF e [of 200 RaisesContentTypeError], of fresh_client]
  note t4 = authenticate_failures [OF e [of 200 "Decoded (JDict [(''error'', JStr ''x'')])"], of fresh_client]
  note t5 = authenticate_failures [OF e [of 400 RaisesContentTypeError], of "token_client ''T0''"]
  from t1 have 1: "authenticate fresh_client (replying (\<lambda>k. (5, reply 400 RaisesContentTypeError)))
     = (Inl (RaptApiError ''Authentication failed: Invalid username or API key''), fresh_client,
        (replying (\<lambda>k. (5, reply 400 RaisesContentTypeError)))\<lparr>clock := 1000005, trace := [auth_post fresh_client]\<rparr>)"
    by (simp add: replying_def)
  from t2 s have 2: "authenticate fresh_client (replying (\<lambda>k. (5, reply 503 RaisesContentTypeError)))
     = (Inl (RaptApiError ''Authentication failed: HTTP 503''), fresh_client,
        (replying (\<lambda>k. (5, reply 503 RaisesContentTypeError)))\<lparr>clock := 1000005, trace := [auth_post fresh_client]\<rparr>)"
    by (simp add: replying_def)
  from t3 have 3: "authenticate fresh_client (replying (\<lambda>k. (5, reply 200 RaisesContentTypeError)))
     = (Inl (RaptApiError ''Authentication failed: Invalid response format''), fresh_client,
        (replying (\<lambda>k. (5, reply 200 RaisesContentTypeError)))\<lparr>clock := 1000005, trace := [auth_post fresh_client]\<rparr>)"
    by (simp add: replying_def)
  from t4 have 4: "authenticate fresh_client (replying (\<lambda>k. (5, reply 200 (Decoded (JDict [(''error'', JStr ''x'')])))))
     = (Inl (RaptApiError ''No access token received from API''), fresh_client,
        (replying (\<lambda>k. (5, reply 200 (Decoded (JDict [(''error'', JStr ''x'')])))))
          \<lparr>clock := 1000005, trace := [auth_post fresh_client]\<rparr>)"
    by (simp add: replying_def)
  have p: "status ?r1 \<noteq> 200" by simp
  from t1 p have "\<forall>w'. ensure_authenticated
        (fst (snd (authenticate fresh_client (replying (\<lambda>k. (5, reply 400 RaisesContentTypeError)))))) w'
      = (if bearer_token fresh_client \<noteq> JNull
            \<and> (\<exists>t. token_expires_at fresh_client = Some t \<and> clock w' < t)
         then (Inr (), fresh_client, w') else authenticate fresh_client w')"
    by blast
  with n have 5: "ensure_authenticated
        (fst (snd (authenticate fresh_client (replying (\<lambda>k. (5, reply 400 RaisesContentTypeError))))))
        (replying (\<lambda>k. (5, token_reply)))
     = authenticate fresh_client (replying (\<lambda>k. (5, token_reply)))"
    by simp
  from t5 p have "\<forall>w'. ensure_authenticated
        (fst (snd (authenticate (token_client ''T0'')
                     (replying (\<lambda>k. (5, reply 400 RaisesContentTypeError)))))) w'
      = (if bearer_token (token_client ''T0'') \<noteq> JNull
            \<and> (\<exists>t. token_expires_at (token_client ''T0'') = Some t \<and> clock w' < t)
         then (Inr (), token_client ''T0'', w') else authenticate (token_client ''T0'') w')"
    by blast
  with v have 6: "ensure_authenticated
        (fst (snd (authenticate (token_client ''T0'')
                     (replying (\<lambda>k. (5, reply 400 RaisesContentTypeError))))))
        (replying (\<lambda>k. (5, token_reply)))
     = (Inr (), token_client ''T0'', replying (\<lambda>k. (5, token_reply)))"
    by simp
  from 1 2 3 4 5 6 show ?thesis by blast
qed

section \<open>Fetching the four categories\<close>

lemma fetch_list_Inr:
  "rate_limited_request ''GET'' url c w = (Inr d, c1, w1) \<Longrightarrow>
   fetch_list url c w = (Inr (case d of JList xs \<Rightarrow> xs | _ \<Rightarrow> []), c1, w1)"
  by (simp add: fetch_list_def split: json.splits)

text \<open>
  Claim C4. Each of the four fetch operations returns the decoded body of a successful
  request when it is a list and the empty list when it is anything else, without raising.
  \<open>get_all_devices\<close> runs the four one after the other, each on the client and the world
  the one before left; when the four requests succeed it returns the four results under
  their category, so a body that is not a list empties its own category and leaves the
  other three as the server sent them.
\<close>

theorem non_list_body_gives_empty_list:
  assumes "rate_limited_request ''GET'' (API_BASE_URL @ API_CONTROLLERS_ENDPOINT) c w
             = (Inr d1, c1, w1)"
      and "rate_limited_request ''GET'' (API_BASE_URL @ API_HYDROMETERS_ENDPOINT) c1 w1
             = (Inr d2, c2, w2)"
      and "rate_limited_request ''GET'' (API_BASE_URL @ API_FERMENTATION_CHAMBERS_ENDPOINT) c2 w2
             = (Inr d3, c3, w3)"
      and "rate_limited_request ''GET'' (API_BASE_URL @ API_BREWZILLAS_ENDPOINT) c3 w3
             = (Inr d4, c4, w4)"
  shows "get_temperature_controllers c w
           = (Inr (case d1 of JList xs \<Rightarrow> xs | _ \<Rightarrow> []), c1, w1)
       \<and> get_hydrometers c1 w1 = (Inr (case d2 of JList xs \<Rightarrow> xs | _ \<Rightarrow> []), c2, w2)
       \<and> get_fermentation_chambers c2 w2
           = (Inr (case d3 of JList xs \<Rightarrow> xs | _ \<Rightarrow> []), c3, w3)
       \<and> get_brewzillas c3 w3 = (Inr (case d4 of JList xs \<Rightarrow> xs | _ \<Rightarrow> []), c4, w4)
       \<and> get_all_devices c w
           = (Inr \<lparr>controllers = (case d1 of JList xs \<Rightarrow> xs | _ \<Rightarrow> []),
                   hydrometers = (case d2 of JList xs \<Rightarrow> xs | _ \<Rightarrow> []),
                   fermentation_chambers = (case d3 of JList xs \<Rightarrow> xs | _ \<Rightarrow> []),
                   brewzillas = (case d4 of JList xs \<Rightarrow> xs | _ \<Rightarrow> [])\<rparr>, c4, w4)
       \<and> (\<forall>d. (\<forall>xs. d \<noteq> JList xs) \<longrightarrow> (case d of JList xs \<Rightarrow> xs | _ \<Rightarrow> []) = [])"
proof -
  note f = fetch_list_Inr [OF assms(1)] fetch_list_Inr [OF assms(2)]
           fetch_list_Inr [OF assms(3)] fetch_list_Inr [OF assms(4)]
  have "\<forall>d. (\<forall>xs. d \<noteq> JList xs) \<longrightarrow> (case d of JList xs \<Rightarrow> xs | _ \<Rightarrow> []) = []"
    by (auto split: json.splits)
  with f show ?thesis
    by (simp add: get_all_devices_def get_temperature_controllers_def get_hydrometers_def
                  get_fermentation_chambers_def get_brewzillas_def)
qed

theorem non_list_body_gives_empty_list_witness:
  "fst (get_all_devices fresh_client
          (replying (serving (JList [dev ''A'']) (JDict [(''error'', JStr ''x'')])
                             (JList [dev ''F'']) (JList [dev ''B'']))))
     = Inr \<lparr>controllers = [dev ''A''], hydrometers = [],
            fermentation_chambers = [dev ''F''], brewzillas = [dev ''B'']\<rparr>"
proof -
  let ?w = "replying (serving (JList [dev ''A'']) (JDict [(''error'', JStr ''x'')])
                              (JList [dev ''F'']) (JList [dev ''B'']))"
  let ?r1 = "rate_limited_request ''GET'' (API_BASE_URL @ API_CONTROLLERS_ENDPOINT) fresh_client ?w"
  let ?r2 = "rate_limited_request ''GET'' (API_BASE_URL @ API_HYDROMETERS_ENDPOINT)
               (fst (snd ?r1)) (snd (snd ?r1))"
  let ?r3 = "rate_limited_request ''GET'' (API_BASE_URL @ API_FERMENTATION_CHAMBERS_ENDPOINT)
               (fst (snd ?r2)) (snd (snd ?r2))"
  let ?r4 = "rate_limited_request ''GET'' (API_BASE_URL @ API_BREWZILLAS_ENDPOINT)
               (fst (snd ?r3)) (snd (snd ?r3))"
  have "fst ?r1 = Inr (JList [dev ''A''])" by (simp add: eval_defs)
  then have h1: "?r1 = (Inr (JList [dev ''A'']), fst (snd ?r1), snd (snd ?r1))"
    by (rule triple_of_fst)
  have "fst ?r2 = Inr (JDict [(''error'', JStr ''x'')])" by (simp add: eval_defs)
  then have h2: "?r2 = (Inr (JDict [(''error'', JStr ''x'')]), fst (snd ?r2), snd (snd ?r2))"
    by (rule triple_of_fst)
  have "fst ?r3 = Inr (JList [dev ''F''])" by (simp add: eval_defs)
  then have h3: "?r3 = (Inr (JList [dev ''F'']), fst (snd ?r3), snd (snd ?r3))"
    by (rule triple_of_fst)
  have "fst ?r4 = Inr (JList [dev ''B''])" by (simp add: eval_defs)
  then have h4: "?r4 = (Inr (JList [dev ''B'']), fst (snd ?r4), snd (snd ?r4))"
    by (rule triple_of_fst)
  from non_list_body_gives_empty_list [OF h1 h2 h3 h4]
  have "get_all_devices fresh_client ?w
          = (Inr \<lparr>controllers = [dev ''A''], hydrometers = [],
                   fermentation_chambers = [dev ''F''], brewzillas = [dev ''B'']\<rparr>,
             fst (snd ?r4), snd (snd ?r4))"
    by simp
  then show ?thesis by simp
qed

section \<open>Polling\<close>

text \<open>
  Claim C3. When \<open>get_all_devices\<close> raises during a poll, \<open>_async_update_data\<close> raises
  \<open>UpdateFailed\<close>, the one exception of the poll, built from the error; the coordinator it
  leaves has the snapshot \<open>data\<close>, the merged list \<open>devices\<close> and the known-device set of
  before (only the state of the client has moved on). A snapshot is returned only when
  \<open>get_all_devices\<close> has succeeded, and then every list in it is the list just fetched and
  the merged list is their concatenation: nothing of the snapshot before is kept.
\<close>

theorem failed_poll_keeps_snapshot:
  "(get_all_devices (api_client co) w = (Inl err, cl, w1) \<longrightarrow>
      async_update_data co w = (Inl (raise_update_failed err), co\<lparr>api_client := cl\<rparr>, w1)
    \<and> (\<exists>prefix. raise_update_failed err = UpdateFailed prefix err)
    \<and> data (co\<lparr>api_client := cl\<rparr>) = data co
    \<and> devices (co\<lparr>api_client := cl\<rparr>) = devices co
    \<and> known_device_ids (co\<lparr>api_client := cl\<rparr>) = known_device_ids co)
   \<and> (async_update_data co w = (Inr snap, co', w') \<longrightarrow>
        (\<exists>a cl. get_all_devices (api_client co) w = (Inr a, cl, w')
           \<and> controllers snap = controllers a \<and> hydrometers snap = hydrometers a
           \<and> fermentation_chambers snap = fermentation_chambers a
           \<and> brewzillas snap = brewzillas a
           \<and> snapshot_devices snap = merged a \<and> devices co' = merged a))"
proof (intro conjI impI)
  assume "get_all_devices (api_client co) w = (Inl err, cl, w1)"
  then show "async_update_data co w = (Inl (raise_update_failed err), co\<lparr>api_client := cl\<rparr>, w1)"
    by (simp add: async_update_data_def)
next
  show "\<exists>prefix. raise_update_failed err = UpdateFailed prefix err"
    by (cases err) (simp_all add: raise_update_failed_def)
next
  assume s: "async_update_data co w = (Inr snap, co', w')"
  obtain r cl w1 where g: "get_all_devices (api_client co) w = (r, cl, w1)"
    by (cases "get_all_devices (api_client co) w")
  from s g obtain a where a: "r = Inr a"
    by (cases r) (auto simp: async_update_data_def)
  obtain t known where t: "track_known_devices (merged a) (known_device_ids co) = (t, known)"
    by (cases "track_known_devices (merged a) (known_device_ids co)")
  from s g a t show "\<exists>a cl. get_all_devices (api_client co) w = (Inr a, cl, w')
           \<and> controllers snap = controllers a \<and> hydrometers snap = hydrometers a
           \<and> fermentation_chambers snap = fermentation_chambers a
           \<and> brewzillas snap = brewzillas a
           \<and> snapshot_devices snap = merged a \<and> devices co' = merged a"
    by (cases t) (auto simp: async_update_data_def Let_def)
qed simp_all

theorem failed_poll_keeps_snapshot_witness:
  "fst (async_update_data idle_coordinator (replying refusing))
     = Inl (UpdateFailed ''Error communicating with RAPT API: ''
              (RaptApiError ''Network error: connection refused''))
   \<and> data (fst (snd (async_update_data idle_coordinator (replying refusing))))
       = data idle_coordinator
   \<and> devices (fst (snd (async_update_data idle_coordinator (replying refusing))))
       = [dev ''A'']
   \<and> known_device_ids (fst (snd (async_update_data idle_coordinator (replying refusing))))
       = {JStr ''A''}
   \<and> map_sum id snapshot_devices
        (fst (async_update_data idle_coordinator
               (replying (serving (JList [dev ''A'']) (JList [dev ''H'']) (JList []) (JList [])))))
       = Inr [dev ''A'', dev ''H'']"
proof -
  let ?g = "get_all_devices (api_client idle_coordinator) (replying refusing)"
  let ?e = "RaptApiError ''Network error: connection refused''"
  have "fst ?g = Inl ?e" by (simp add: eval_defs coord_defs)
  then have h: "?g = (Inl ?e, fst (snd ?g), snd (snd ?g))" by (rule triple_of_fst)
  from failed_poll_keeps_snapshot [of idle_coordinator "replying refusing" ?e "fst (snd ?g)" "snd (snd ?g)"] h
  have u: "async_update_data idle_coordinator (replying refusing)
          = (Inl (raise_update_failed ?e), idle_coordinator\<lparr>api_client := fst (snd ?g)\<rparr>, snd (snd ?g))"
    by blast
  have 1: "fst (async_update_data idle_coordinator (replying refusing))
     = Inl (UpdateFailed ''Error communicating with RAPT API: '' ?e)"
    by (simp add: u raise_update_failed_def)
  have 2: "data (fst (snd (async_update_data idle_coordinator (replying refusing))))
       = data idle_coordinator"
    by (simp add: u)
  have 3: "devices (fst (snd (async_update_data idle_coordinator (replying refusing))))
       = [dev ''A'']"
    by (simp add: u) (simp add: idle_coordinator_def)
  have 4: "known_device_ids (fst (snd (async_update_data idle_coordinator (replying refusing))))
       = {JStr ''A''}"
    by (simp add: u) (simp add: idle_coordinator_def)
  let ?w = "replying (serving (JList [dev ''A'']) (JList [dev ''H'']) (JList []) (JList []))"
  let ?p = "async_update_data idle_coordinator ?w"
  obtain r co' w' where p: "?p = (r, co', w')" by (cases ?p)
  have "fst ?p = Inr \<lparr>controllers = [dev ''A''], hydrometers = [dev ''H''],
                       fermentation_chambers = [], brewzillas = [],
                       snapshot_devices = [dev ''A'', dev ''H''], last_updated = True\<rparr>"
    by (simp add: eval_defs coord_defs)
  with p obtain snap where snap: "?p = (Inr snap, co', w')" by auto
  from failed_poll_keeps_snapshot [of idle_coordinator ?w _ _ _ snap co' w'] snap
  obtain a cl where a: "get_all_devices (api_client idle_coordinator) ?w = (Inr a, cl, w')"
    and m: "snapshot_devices snap = merged a"
    by blast
  have "fst (get_all_devices (api_client idle_coordinator) ?w)
          = Inr \<lparr>controllers = [dev ''A''], hydrometers = [dev ''H''],
                  fermentation_chambers = [], brewzillas = []\<rparr>"
    by (simp add: eval_defs coord_defs)
  with a have "merged a = [dev ''A'', dev ''H'']" by (auto simp: merged_def)
  with m snap have 5: "map_sum id snapshot_devices (fst ?p) = Inr [dev ''A'', dev ''H'']"
    by simp
  from 1 2 3 4 5 show ?thesis by blast
qed

text \<open>
  What \<open>_async_update_data\<close> stores under \<open>last_updated\<close> is the attribute
  \<open>last_update_success\<close> as it stands when the poll runs.
\<close>

lemma last_updated_eq:
  "async_update_data co w = (Inr snap, co', w') \<Longrightarrow> last_updated snap = last_update_success co"
  by (auto simp: async_update_data_def Let_def split: prod.splits sum.splits)

text \<open>
  Claim C9. The snapshot of a successful poll has the four category lists and the merged
  list, but its entry \<open>last_updated\<close> is not an instant: it is the boolean
  \<open>last_update_success\<close>, read before the outcome of this poll is known. A successful
  poll that follows a failed one returns \<open>False\<close> there, and a successful poll a day later
  on the clock returns the same \<open>True\<close> as any other that follows a success.
\<close>

theorem last_updated_is_a_flag:
  "map_sum id last_updated
     (fst (async_update_data (idle_coordinator\<lparr>last_update_success := False\<rparr>)
            (replying (serving (JList [dev ''A'']) (JList []) (JList []) (JList [])))))
     = Inr False
   \<and> map_sum id last_updated
       (fst (async_update_data idle_coordinator
              ((replying (serving (JList [dev ''A'']) (JList []) (JList []) (JList [])))
                 \<lparr>clock := 86400000000\<rparr>)))
     = Inr True"
  by (simp add: eval_defs coord_defs)

section \<open>The value of a sensor\<close>

lemma find_device_none:
  "\<forall>h \<in> set hs. \<exists>kvs. h = JDict kvs \<and> map_of kvs ''id'' \<noteq> Some (JStr i) \<Longrightarrow>
   find_device hs i = Inr None"
proof (induction hs)
  case Nil
  then show ?case by simp
next
  case (Cons h hs)
  then obtain kvs where "h = JDict kvs" "map_of kvs ''id'' \<noteq> Some (JStr i)" by auto
  moreover from Cons have "find_device hs i = Inr None" by simp
  ultimately show ?case by (cases "map_of kvs ''id''") auto
qed

text \<open>
  Claim C10. A sensor whose device type is not \<open>TemperatureController\<close>, so one of a
  fermentation chamber or a BrewZilla too, looks its device up in the \<open>hydrometers\<close> list
  of the snapshot and nowhere else: its value does not depend on the other three lists.
  Whenever no record of the \<open>hydrometers\<close> list has the id of the device, \<open>native_value\<close>
  is \<open>None\<close> and \<open>available\<close> is false, whatever the \<open>fermentation_chambers\<close> and
  \<open>brewzillas\<close> lists hold. A sensor of type \<open>TemperatureController\<close> depends on the
  \<open>controllers\<close> list only.
\<close>

theorem chamber_sensor_reads_hydrometers:
  assumes "data co = Some d"
  shows "(device_type s \<noteq> ''TemperatureController'' \<longrightarrow>
            native_value B s
              (co\<lparr>data := Some (d\<lparr>controllers := x, fermentation_chambers := y,
                                   brewzillas := z\<rparr>)\<rparr>)
            = native_value B s co
          \<and> ((\<forall>h \<in> set (hydrometers d).
                 \<exists>kvs. h = JDict kvs \<and> map_of kvs ''id'' \<noteq> Some (JStr (device_id s))) \<longrightarrow>
               native_value B s co = Inr None \<and> available B s co = Inr False))
       \<and> (device_type s = ''TemperatureController'' \<longrightarrow>
            native_value B s
              (co\<lparr>data := Some (d\<lparr>hydrometers := x, fermentation_chambers := y,
                                   brewzillas := z\<rparr>)\<rparr>)
            = native_value B s co)"
proof (intro conjI impI)
  assume "device_type s \<noteq> ''TemperatureController''"
  with assms show "native_value B s
           (co\<lparr>data := Some (d\<lparr>controllers := x, fermentation_chambers := y,
                                brewzillas := z\<rparr>)\<rparr>)
         = native_value B s co"
    by (simp add: native_value_def)
next
  assume t: "device_type s \<noteq> ''TemperatureController''"
     and "\<forall>h \<in> set (hydrometers d).
            \<exists>kvs. h = JDict kvs \<and> map_of kvs ''id'' \<noteq> Some (JStr (device_id s))"
  then have f: "find_device (hydrometers d) (device_id s) = Inr None"
    by (simp add: find_device_none)
  with assms t show n: "native_value B s co = Inr None" by (simp add: native_value_def)
  then show "available B s co = Inr False" by (simp add: available_def)
next
  assume "device_type s = ''TemperatureController''"
  with assms show "native_value B s
           (co\<lparr>data := Some (d\<lparr>hydrometers := x, fermentation_chambers := y,
                                brewzillas := z\<rparr>)\<rparr>)
         = native_value B s co"
    by (simp add: native_value_def)
qed

theorem chamber_sensor_reads_hydrometers_witness:
  "device_type chamber_sensor \<noteq> ''TemperatureController''
   \<and> JDict [(''id'', JStr (device_id chamber_sensor)), (''temperature'', JInt 18)]
       \<in> set (case data chamber_coordinator of
                 None \<Rightarrow> [] | Some d \<Rightarrow> fermentation_chambers d)
   \<and> native_value no_parsing chamber_sensor chamber_coordinator = Inr None
   \<and> available no_parsing chamber_sensor chamber_coordinator = Inr False"
proof -
  let ?d = "\<lparr>controllers = [], hydrometers = [dev ''H1''],
             fermentation_chambers = [JDict [(''id'', JStr ''F1''), (''temperature'', JInt 18)]],
             brewzillas = [],
             snapshot_devices =
               [dev ''H1'', JDict [(''id'', JStr ''F1''), (''temperature'', JInt 18)]],
             last_updated = True\<rparr>"
  have t: "device_type chamber_sensor \<noteq> ''TemperatureController''"
    by (simp add: chamber_sensor_def)
  have d: "data chamber_coordinator = Some ?d" by (simp add: chamber_coordinator_def)
  have h: "\<forall>h \<in> set (hydrometers ?d).
             \<exists>kvs. h = JDict kvs \<and> map_of kvs ''id'' \<noteq> Some (JStr (device_id chamber_sensor))"
    by (simp add: dev_def chamber_sensor_def)
  from chamber_sensor_reads_hydrometers [OF d, of chamber_sensor no_parsing] t h
  have "native_value no_parsing chamber_sensor chamber_coordinator = Inr None
        \<and> available no_parsing chamber_sensor chamber_coordinator = Inr False"
    by blast
  moreover have "JDict [(''id'', JStr (device_id chamber_sensor)), (''temperature'', JInt 18)]
       \<in> set (case data chamber_coordinator of
                 None \<Rightarrow> [] | Some d \<Rightarrow> fermentation_chambers d)"
    by (simp add: chamber_coordinator_def chamber_sensor_def)
  ultimately show ?thesis using t by blast
qed

section \<open>The retry after a 401\<close>

lemma http_eq:
  "env w (length (trace w)) = (took, res) \<Longrightarrow>
   http ev w = (res, w\<lparr>clock := clock w + int took, trace := trace w @ [ev]\<rparr>)"
  by (simp add: http_def)

lemma authenticate_world:
  "authenticate c w = (res, c', w') \<Longrightarrow>
   w' = w\<lparr>clock := clock w + int (fst (env w (length (trace w)))), trace := trace w @ [auth_post c]\<rparr>"
  by (auto simp: authenticate_def http_def Let_def
           split: prod.splits net_result.splits option.splits decoding.splits sum.splits bool.splits if_splits)

text \<open>
  A request answered with a 401 whose re-authentication is refused: the error of
  \<open>authenticate\<close> is what the call raises, and the trace ends with the token request; no
  second GET is made.
\<close>

theorem retry_after_401_counterexample:
  "rate_limited_request ''GET'' ''url'' fresh_client (replying rejecting)
     = (Inl (RaptApiError ''Authentication failed: HTTP 503''),
        fresh_client\<lparr>bearer_token := JStr ''T1'', token_expires_at := Some 2701000000,
                      last_request_time := Some 1000000\<rparr>,
        (replying rejecting)
          \<lparr>trace := [auth_post fresh_client, Request ''GET'' ''url'' (JStr ''T1''),
                    auth_post fresh_client]\<rparr>)"
  by (simp add: eval_defs rejecting_def auth_post_def str_int_def str_nat.simps digit_def)

text \<open>
  Claim C2, as the code has it. When the request is answered with a 401, the client calls
  \<open>authenticate\<close> once. If that fails, its error is raised and nothing more is sent: no
  retry. If it succeeds, the request is sent once more, with the token just stored, and
  nothing after it; a retry answered with any status other than 200, a 401 too, raises
  the request error that names the status.
\<close>

theorem retry_after_401:
  assumes "env w (length (trace w)) = (took, Response r)" and "status r = 401"
  shows "(authenticate c
            (w\<lparr>clock := clock w + int took,
                trace := trace w @ [Request method url (bearer_token c)]\<rparr>) = (Inl e, c4, w4) \<longrightarrow>
            request_with_retry method url c w = (Inl e, c4, w4)
          \<and> trace w4 = trace w @ [Request method url (bearer_token c), auth_post c])
       \<and> (authenticate c
            (w\<lparr>clock := clock w + int took,
                trace := trace w @ [Request method url (bearer_token c)]\<rparr>) = (Inr u, c4, w4) \<longrightarrow>
            trace (snd (snd (request_with_retry method url c w)))
              = trace w @ [Request method url (bearer_token c), auth_post c,
                         Request method url (bearer_token c4)]
          \<and> fst (snd (request_with_retry method url c w)) = c4
          \<and> (\<forall>took' rr. env w4 (length (trace w4)) = (took', Response rr) \<and> status rr \<noteq> 200 \<longrightarrow>
                fst (request_with_retry method url c w)
                  = Inl (RaptApiError (''Request failed after re-auth: ''
                           @ str_int (status rr) @ '' - '' @ body_text rr))))"
proof (intro conjI impI allI)
  let ?w3 = "w\<lparr>clock := clock w + int took, trace := trace w @ [Request method url (bearer_token c)]\<rparr>"
  have h: "http (Request method url (bearer_token c)) w = (Response r, ?w3)"
    using assms(1) by (rule http_eq)
  {
    assume a: "authenticate c ?w3 = (Inl e, c4, w4)"
    from h a assms(2) show "request_with_retry method url c w = (Inl e, c4, w4)"
      by (simp add: request_with_retry_def)
    from authenticate_world [OF a] show "trace w4 = trace w @ [Request method url (bearer_token c), auth_post c]"
      by simp
  }
  {
    assume a: "authenticate c ?w3 = (Inr u, c4, w4)"
    from authenticate_world [OF a]
    have l4: "trace w4 = trace w @ [Request method url (bearer_token c), auth_post c]" by simp
    obtain took' res where e: "env w4 (length (trace w4)) = (took', res)"
      by (cases "env w4 (length (trace w4))")
    note h4 = http_eq [OF e, of "Request method url (bearer_token c4)"]
    from h a assms(2) h4 l4
    show "trace (snd (snd (request_with_retry method url c w)))
              = trace w @ [Request method url (bearer_token c), auth_post c,
                         Request method url (bearer_token c4)]"
      by (cases res) (simp_all add: request_with_retry_def split: option.splits decoding.splits)
    from h a assms(2) h4 show "fst (snd (request_with_retry method url c w)) = c4"
      by (cases res) (simp_all add: request_with_retry_def split: option.splits decoding.splits)
    fix took'' rr
    assume "env w4 (length (trace w4)) = (took'', Response rr) \<and> status rr \<noteq> 200"
    with h a assms(2) show "fst (request_with_retry method url c w)
                  = Inl (RaptApiError (''Request failed after re-auth: ''
                           @ str_int (status rr) @ '' - '' @ body_text rr))"
      by (simp add: request_with_retry_def http_def)
  }
qed

theorem retry_after_401_witness:
  "request_with_retry ''GET'' ''url'' (token_client ''T1'') (after_login rejecting)
     = (Inl (RaptApiError ''Authentication failed: HTTP 503''), token_client ''T1'',
        (after_login rejecting)
          \<lparr>trace := [auth_post fresh_client, Request ''GET'' ''url'' (JStr ''T1''),
                    auth_post fresh_client]\<rparr>)
   \<and> trace (snd (snd (request_with_retry ''GET'' ''url'' (token_client ''T1'')
                      (after_login rejecting_twice))))
       = [auth_post fresh_client, Request ''GET'' ''url'' (JStr ''T1''), auth_post fresh_client,
          Request ''GET'' ''url'' (JStr ''T2'')]
   \<and> fst (request_with_retry ''GET'' ''url'' (token_client ''T1'') (after_login rejecting_twice))
       = Inl (RaptApiError ''Request failed after re-auth: 401 - body'')"
proof -
  let ?c = "token_client ''T1''"
  let ?r = "\<lparr>status = 401, body_text = ''body'', json_body = RaisesContentTypeError\<rparr>"
  let ?w = "after_login rejecting"
  let ?w3 = "?w\<lparr>clock := clock ?w + int 0, trace := trace ?w @ [Request ''GET'' ''url'' (bearer_token ?c)]\<rparr>"
  let ?w4 = "?w\<lparr>trace := [auth_post fresh_client, Request ''GET'' ''url'' (JStr ''T1''),
                    auth_post fresh_client]\<rparr>"
  have e: "env ?w (length (trace ?w)) = (0, Response ?r)"
    by (simp add: after_login_def replying_def rejecting_def reply_def)
  have s: "status ?r = 401" by simp
  have a: "authenticate ?c ?w3 = (Inl (RaptApiError ''Authentication failed: HTTP 503''), ?c, ?w4)"
    by (simp add: eval_defs after_login_def token_client_def rejecting_def auth_post_def
                  str_int_def str_nat.simps digit_def)
  from retry_after_401 [OF e s, of ?c "''GET''" "''url''"
         "RaptApiError ''Authentication failed: HTTP 503''" ?c ?w4] a
  have 1: "request_with_retry ''GET'' ''url'' ?c ?w
             = (Inl (RaptApiError ''Authentication failed: HTTP 503''), ?c, ?w4)"
    by blast
  let ?v = "after_login rejecting_twice"
  let ?v3 = "?v\<lparr>clock := clock ?v + int 0, trace := trace ?v @ [Request ''GET'' ''url'' (bearer_token ?c)]\<rparr>"
  let ?c4 = "?c\<lparr>bearer_token := JStr ''T2'', token_expires_at := Some 2701000000\<rparr>"
  let ?v4 = "?v\<lparr>trace := [auth_post fresh_client, Request ''GET'' ''url'' (JStr ''T1''),
                    auth_post fresh_client]\<rparr>"
  have e': "env ?v (length (trace ?v)) = (0, Response ?r)"
    by (simp add: after_login_def replying_def rejecting_twice_def reply_def)
  have a': "authenticate ?c ?v3 = (Inr (), ?c4, ?v4)"
    by (simp add: eval_defs after_login_def token_client_def rejecting_twice_def auth_post_def)
  have e4: "env ?v4 (length (trace ?v4)) = (0, Response ?r) \<and> status ?r \<noteq> 200"
    by (simp add: after_login_def replying_def rejecting_twice_def reply_def)
  have s4: "str_int 401 = ''401''" by (simp add: str_int_def str_nat.simps digit_def)
  note t = retry_after_401 [OF e' s, of ?c "''GET''" "''url''"]
  from t a' have 2: "trace (snd (snd (request_with_retry ''GET'' ''url'' ?c ?v)))
              = trace ?v @ [Request ''GET'' ''url'' (bearer_token ?c), auth_post ?c,
                         Request ''GET'' ''url'' (bearer_token ?c4)]"
    by blast
  from t a' e4 have 3: "fst (request_with_retry ''GET'' ''url'' ?c ?v)
                  = Inl (RaptApiError (''Request failed after re-auth: ''
                           @ str_int (status ?r) @ '' - '' @ body_text ?r))"
    by blast
  from 2 have l2: "trace (snd (snd (request_with_retry ''GET'' ''url'' ?c ?v)))
       = [auth_post fresh_client, Request ''GET'' ''url'' (JStr ''T1''), auth_post fresh_client,
          Request ''GET'' ''url'' (JStr ''T2'')]"
    by (simp add: after_login_def token_client_def auth_post_def fresh_client_def)
  from 3 s4 have l3: "fst (request_with_retry ''GET'' ''url'' ?c ?v)
       = Inl (RaptApiError ''Request failed after re-auth: 401 - body'')"
    by simp
  from 1 l2 l3 show ?thesis by blast
qed

section \<open>Manual discovery\<close>

lemma is_first_unknown_Suc:
  "is_first_unknown known (d # ds) (Suc i) =
     is_first_unknown (case carried_id d of None \<Rightarrow> known | Some k \<Rightarrow> insert k known) ds i"
  by (auto simp: is_first_unknown_def split: option.splits)

lemma first_unknown_Nil: "first_unknown known [] = []"
  by (simp add: first_unknown_def)

lemma first_unknown_Cons:
  "first_unknown known (d # ds) =
     (case carried_id d of
        None \<Rightarrow> first_unknown known ds
      | Some k \<Rightarrow>
          if k \<notin> known then d # first_unknown (insert k known) ds
          else first_unknown known ds)"
proof -
  have u: "[0..<length (d # ds)] = 0 # map Suc [0..<length ds]"
    by (simp add: upt_conv_Cons map_Suc_upt del: upt_Suc)
  have m: "map ((!) (d # ds)) (filter (is_first_unknown known (d # ds)) (map Suc [0..<length ds]))
             = first_unknown (case carried_id d of None \<Rightarrow> known | Some k \<Rightarrow> insert k known) ds"
    by (simp add: first_unknown_def filter_map o_def is_first_unknown_Suc)
  have z: "is_first_unknown known (d # ds) 0 = (case carried_id d of None \<Rightarrow> False | Some k \<Rightarrow> k \<notin> known)"
    by (simp add: is_first_unknown_def split: option.splits)
  have "first_unknown known (d # ds)
          = (if is_first_unknown known (d # ds) 0 then [d] else [])
            @ first_unknown (case carried_id d of None \<Rightarrow> known | Some k \<Rightarrow> insert k known) ds"
    unfolding first_unknown_def [of known "d # ds"] u using m by simp
  then show ?thesis
    by (auto simp: z insert_absorb split: option.splits)
qed

lemma discover_loop_well_formed:
  "\<forall>d \<in> set ds. well_formed_record d \<Longrightarrow>
   discover_loop ds known acc
     = (Inr (), known \<union> {k. Some k \<in> carried_id ` set ds}, acc @ first_unknown known ds)"
proof (induction ds arbitrary: known acc)
  case Nil
  then show ?case by (simp add: first_unknown_Nil)
next
  case (Cons d ds)
  from Cons.prems obtain v where v: "py_get d ''id'' JNull = Inr v"
    by (auto simp: well_formed_record_def split: sum.splits)
  from Cons.prems have rest: "\<forall>d \<in> set ds. well_formed_record d" by simp
  note IH = Cons.IH [OF rest]
  show ?case
  proof (cases "truthy v")
    case False
    with v have "carried_id d = None" by (simp add: carried_id_def)
    with v False IH show ?thesis by (simp add: first_unknown_Cons)
  next
    case True
    with Cons.prems v obtain k where k: "hash_key v = Inr k"
      by (auto simp: well_formed_record_def split: sum.splits)
    with v True have c: "carried_id d = Some k" by (simp add: carried_id_def)
    show ?thesis
    proof (cases "k \<in> known")
      case True
      with v \<open>truthy v\<close> k c IH show ?thesis
        by (auto simp: first_unknown_Cons)
    next
      case False
      with v \<open>truthy v\<close> k c IH show ?thesis
        by (auto simp: first_unknown_Cons)
    qed
  qed
qed

lemma trace_await: "trace (await ev w) = trace w @ [ev]"
  by (simp add: await_def http_def split: prod.splits)

lemma run_callbacks_complete:
  "\<forall>cb \<in> set cbs. cb new = None \<Longrightarrow>
   fst (run_callbacks cbs i new w) = Inr ()
   \<and> trace (snd (run_callbacks cbs i new w))
       = trace w @ map (\<lambda>j. CallbackCalled j new) [i..<i + length cbs]"
proof (induction cbs arbitrary: i w)
  case Nil
  then show ?case by simp
next
  case (Cons cb cbs)
  then have "cb new = None" and "\<forall>cb \<in> set cbs. cb new = None" by simp_all
  with Cons.IH [of "Suc i" "await (CallbackCalled i new) w"] show ?case
    by (simp add: Let_def trace_await upt_conv_Cons del: upt_Suc)
qed

lemma run_callbacks_raise:
  "n < length cbs \<Longrightarrow> (cbs ! n) new = Some e \<Longrightarrow> \<forall>j<n. (cbs ! j) new = None \<Longrightarrow>
   fst (run_callbacks cbs i new w) = Inl e
   \<and> trace (snd (run_callbacks cbs i new w))
       = trace w @ map (\<lambda>j. CallbackCalled j new) [i..<i + Suc n]"
proof (induction cbs arbitrary: i w n)
  case Nil
  then show ?case by simp
next
  case (Cons cb cbs)
  show ?case
  proof (cases n)
    case 0
    with Cons.prems show ?thesis by (simp add: Let_def trace_await)
  next
    case (Suc m)
    with Cons.prems have "m < length cbs" "(cbs ! m) new = Some e" "\<forall>j<m. (cbs ! j) new = None"
      and "cb new = None"
      by auto
    with Cons.IH [of m "Suc i" "await (CallbackCalled i new) w"] Suc show ?thesis
      by (simp add: Let_def trace_await upt_conv_Cons del: upt_Suc)
  qed
qed

lemma ids_first_unknown:
  "{k. Some k \<in> carried_id ` set (first_unknown known ds)}
     = {k. Some k \<in> carried_id ` set ds} - known"
proof (induction ds arbitrary: known)
  case Nil
  then show ?case by (simp add: first_unknown_Nil)
next
  case (Cons d ds)
  show ?case
  proof (cases "carried_id d")
    case None
    with Cons.IH [of known] show ?thesis by (auto simp: first_unknown_Cons)
  next
    case (Some k)
    show ?thesis
    proof (cases "k \<in> known")
      case True
      with Some Cons.IH [of known] show ?thesis by (auto simp: first_unknown_Cons)
    next
      case False
      with Some Cons.IH [of "insert k known"] show ?thesis
        by (auto simp: first_unknown_Cons)
    qed
  qed
qed

lemmas discover_defs = async_discover_devices_def merged_def await_def
  listening_def idle_coordinator_def completes_def raises_def named_def dev_def refusing_def

text \<open>
  A discovery that fetches two records with the same id \<open>C\<close>, unknown so far, one among
  the controllers and one among the hydrometers, with two callbacks registered of which
  the first raises. The eight events of the fetch are followed by one event only: the
  first callback, called with the first of the two records. The second record is not
  collected, the second callback is not called and no refresh is requested; \<open>C\<close> is
  known afterwards.
\<close>

theorem discovery_of_new_devices_counterexample:
  "drop 8 (trace (snd (async_discover_devices (listening [raises, completes])
                       (replying (serving (JList [named ''C'' ''one''])
                                          (JList [named ''C'' ''two'']) (JList []) (JList []))))))
     = [CallbackCalled 0 [named ''C'' ''one'']]
   \<and> known_device_ids
        (fst (async_discover_devices (listening [raises, completes])
                (replying (serving (JList [named ''C'' ''one''])
                                   (JList [named ''C'' ''two'']) (JList []) (JList [])))))
     = {JStr ''A'', JStr ''B'', JStr ''C''}"
  by (simp add: eval_defs discover_defs insert_commute)

text \<open>
  Claim C5, as the code has it. When the fetch raises, the discovery ends there, without
  an exception, the coordinator unchanged but for the state of its client. When the fetch
  succeeds and its records are well formed, the records collected as new are those that
  carry an id which is not in the known-device set and which no earlier record of the
  same fetch carries; the known-device set gains the ids of exactly these records, and
  nothing else of the coordinator changes. If no record is new, no callback is called and
  a refresh is requested. If some are, the callbacks are called with the list of them in
  the order of their registration, each once: all of them, followed by the request of a
  refresh, when none raises; up to and including the first that raises, and no refresh,
  otherwise. In no case does the discovery raise.
\<close>

theorem discovery_of_new_devices:
  "(get_all_devices (api_client co) w = (Inl err, cl, w') \<longrightarrow>
      async_discover_devices co w = (co\<lparr>api_client := cl\<rparr>, w'))
   \<and> (get_all_devices (api_client co) w = (Inr a, cl, w')
        \<and> (\<forall>d \<in> set (merged a). well_formed_record d) \<longrightarrow>
      (let new = first_unknown (known_device_ids co) (merged a);
           cbs = discovery_callbacks co;
           res = async_discover_devices co w
       in fst res = co\<lparr>api_client := cl,
                        known_device_ids :=
                          known_device_ids co \<union> {k. Some k \<in> carried_id ` set new}\<rparr>
        \<and> (new = [] \<longrightarrow> trace (snd res) = trace w' @ [RefreshRequested])
        \<and> (new \<noteq> [] \<and> (\<forall>cb \<in> set cbs. cb new = None) \<longrightarrow>
             trace (snd res)
               = trace w' @ map (\<lambda>j. CallbackCalled j new) [0..<length cbs] @ [RefreshRequested])
        \<and> (\<forall>n. new \<noteq> [] \<and> n < length cbs \<and> (cbs ! n) new \<noteq> None
                 \<and> (\<forall>j<n. (cbs ! j) new = None) \<longrightarrow>
             trace (snd res) = trace w' @ map (\<lambda>j. CallbackCalled j new) [0..<Suc n])))"
proof (intro conjI impI)
  assume "get_all_devices (api_client co) w = (Inl err, cl, w')"
  then show "async_discover_devices co w = (co\<lparr>api_client := cl\<rparr>, w')"
    by (simp add: async_discover_devices_def)
next
  assume h: "get_all_devices (api_client co) w = (Inr a, cl, w')
             \<and> (\<forall>d \<in> set (merged a). well_formed_record d)"
  define new where "new = first_unknown (known_device_ids co) (merged a)"
  define cbs where "cbs = discovery_callbacks co"
  define known where "known = known_device_ids co \<union> {k. Some k \<in> carried_id ` set new}"
  from h have loop: "discover_loop (merged a) (known_device_ids co) [] = (Inr (), known, new)"
    by (simp add: discover_loop_well_formed known_def new_def ids_first_unknown)
  have unf: "async_discover_devices co w
               = (case (if new \<noteq> [] then run_callbacks cbs 0 new w' else (Inr (), w')) of
                    (Inl e, w2) \<Rightarrow> (co\<lparr>api_client := cl, known_device_ids := known\<rparr>, w2)
                  | (Inr u, w2) \<Rightarrow>
                      (co\<lparr>api_client := cl, known_device_ids := known\<rparr>,
                       await RefreshRequested w2))"
    using h loop by (simp add: async_discover_devices_def cbs_def Let_def)
  have 1: "fst (async_discover_devices co w) = co\<lparr>api_client := cl, known_device_ids := known\<rparr>"
    unfolding unf by (simp split: prod.splits sum.splits)
  have 2: "new = [] \<longrightarrow> trace (snd (async_discover_devices co w)) = trace w' @ [RefreshRequested]"
    unfolding unf by (simp add: trace_await)
  have 3: "new \<noteq> [] \<and> (\<forall>cb \<in> set cbs. cb new = None) \<longrightarrow>
             trace (snd (async_discover_devices co w))
               = trace w' @ map (\<lambda>j. CallbackCalled j new) [0..<length cbs] @ [RefreshRequested]"
  proof
    assume p: "new \<noteq> [] \<and> (\<forall>cb \<in> set cbs. cb new = None)"
    then have "\<forall>cb \<in> set cbs. cb new = None" by simp
    from run_callbacks_complete [OF this, of 0 w']
    obtain w2 where "run_callbacks cbs 0 new w' = (Inr (), w2)"
      and "trace w2 = trace w' @ map (\<lambda>j. CallbackCalled j new) [0..<length cbs]"
      by (cases "run_callbacks cbs 0 new w'") auto
    with p show "trace (snd (async_discover_devices co w))
               = trace w' @ map (\<lambda>j. CallbackCalled j new) [0..<length cbs] @ [RefreshRequested]"
      unfolding unf by (simp add: trace_await)
  qed
  have 4: "\<forall>n. new \<noteq> [] \<and> n < length cbs \<and> (cbs ! n) new \<noteq> None
                 \<and> (\<forall>j<n. (cbs ! j) new = None) \<longrightarrow>
             trace (snd (async_discover_devices co w))
               = trace w' @ map (\<lambda>j. CallbackCalled j new) [0..<Suc n]"
  proof (intro allI impI)
    fix n
    assume p: "new \<noteq> [] \<and> n < length cbs \<and> (cbs ! n) new \<noteq> None
                 \<and> (\<forall>j<n. (cbs ! j) new = None)"
    then obtain e where e: "(cbs ! n) new = Some e" by auto
    from p have "n < length cbs" and "\<forall>j<n. (cbs ! j) new = None" by simp_all
    from run_callbacks_raise [OF this(1) e this(2), of 0 w']
    obtain w2 where "run_callbacks cbs 0 new w' = (Inl e, w2)"
      and "trace w2 = trace w' @ map (\<lambda>j. CallbackCalled j new) [0..<Suc n]"
      by (cases "run_callbacks cbs 0 new w'") auto
    with p show "trace (snd (async_discover_devices co w))
               = trace w' @ map (\<lambda>j. CallbackCalled j new) [0..<Suc n]"
      unfolding unf by simp
  qed
  from 1 2 3 4 show "let new = first_unknown (known_device_ids co) (merged a);
           cbs = discovery_callbacks co;
           res = async_discover_devices co w
       in fst res = co\<lparr>api_client := cl,
                        known_device_ids :=
                          known_device_ids co \<union> {k. Some k \<in> carried_id ` set new}\<rparr>
        \<and> (new = [] \<longrightarrow> trace (snd res) = trace w' @ [RefreshRequested])
        \<and> (new \<noteq> [] \<and> (\<forall>cb \<in> set cbs. cb new = None) \<longrightarrow>
             trace (snd res)
               = trace w' @ map (\<lambda>j. CallbackCalled j new) [0..<length cbs] @ [RefreshRequested])
        \<and> (\<forall>n. new \<noteq> [] \<and> n < length cbs \<and> (cbs ! n) new \<noteq> None
                 \<and> (\<forall>j<n. (cbs ! j) new = None) \<longrightarrow>
             trace (snd res) = trace w' @ map (\<lambda>j. CallbackCalled j new) [0..<Suc n])"
    unfolding Let_def new_def [symmetric] cbs_def [symmetric] known_def [symmetric] by blast
qed

theorem discovery_of_new_devices_witness:
  "fst (async_discover_devices (listening [completes]) (replying refusing))
     = (listening [completes])
         \<lparr>api_client := fst (snd (get_all_devices fresh_client (replying refusing)))\<rparr>
   \<and> trace (snd (async_discover_devices (listening [completes])
                  (replying (serving (JList [dev ''A'']) (JList [dev ''B'']) (JList []) (JList [])))))
       = trace (snd (snd (get_all_devices fresh_client
                  (replying (serving (JList [dev ''A'']) (JList [dev ''B'']) (JList []) (JList []))))))
         @ [RefreshRequested]
   \<and> trace (snd (async_discover_devices (listening [completes, completes])
                  (replying (serving (JList [dev ''A'']) (JList [dev ''B''])
                                     (JList [dev ''C'']) (JList [])))))
       = trace (snd (snd (get_all_devices fresh_client
                  (replying (serving (JList [dev ''A'']) (JList [dev ''B''])
                                     (JList [dev ''C'']) (JList []))))))
         @ [CallbackCalled 0 [dev ''C''], CallbackCalled 1 [dev ''C''], RefreshRequested]
   \<and> known_device_ids
        (fst (async_discover_devices (listening [completes, completes])
                (replying (serving (JList [dev ''A'']) (JList [dev ''B''])
                                   (JList [dev ''C'']) (JList [])))))
       = {JStr ''A'', JStr ''B'', JStr ''C''}
   \<and> trace (snd (async_discover_devices (listening [raises, completes])
                  (replying (serving (JList [dev ''A'']) (JList [dev ''B''])
                                     (JList [dev ''C'']) (JList [])))))
       = trace (snd (snd (get_all_devices fresh_client
                  (replying (serving (JList [dev ''A'']) (JList [dev ''B''])
                                     (JList [dev ''C'']) (JList []))))))
         @ [CallbackCalled 0 [dev ''C'']]"
proof -
  have cl: "\<And>cbs. api_client (listening cbs) = fresh_client"
    by (simp add: listening_def idle_coordinator_def)
  have kn: "\<And>cbs. known_device_ids (listening cbs) = {JStr ''A'', JStr ''B''}"
    by (simp add: listening_def)
  have cb: "\<And>cbs. discovery_callbacks (listening cbs) = cbs"
    by (simp add: listening_def)
  let ?g0 = "get_all_devices fresh_client (replying refusing)"
  have "\<exists>e. fst ?g0 = Inl e" by (simp add: eval_defs refusing_def)
  then obtain e where "fst ?g0 = Inl e" ..
  then have "get_all_devices (api_client (listening [completes])) (replying refusing)
               = (Inl e, fst (snd ?g0), snd (snd ?g0))"
    unfolding cl by (rule triple_of_fst)
  with discovery_of_new_devices
         [of "listening [completes]" "replying refusing" e "fst (snd ?g0)" "snd (snd ?g0)"]
  have 1: "fst (async_discover_devices (listening [completes]) (replying refusing))
             = (listening [completes])\<lparr>api_client := fst (snd ?g0)\<rparr>"
    by simp
  let ?w1 = "replying (serving (JList [dev ''A'']) (JList [dev ''B'']) (JList []) (JList []))"
  let ?g1 = "get_all_devices fresh_client ?w1"
  let ?a1 = "\<lparr>controllers = [dev ''A''], hydrometers = [dev ''B''],
              fermentation_chambers = [], brewzillas = []\<rparr>"
  have "fst ?g1 = Inr ?a1" by (simp add: eval_defs)
  then have g1: "get_all_devices (api_client (listening [completes])) ?w1
                   = (Inr ?a1, fst (snd ?g1), snd (snd ?g1))"
    unfolding cl by (rule triple_of_fst)
  have wf1: "\<forall>d \<in> set (merged ?a1). well_formed_record d"
    by (simp add: merged_def dev_def well_formed_record_def)
  have n1: "first_unknown {JStr ''A'', JStr ''B''} (merged ?a1) = []"
    by (simp add: merged_def dev_def first_unknown_Cons first_unknown_Nil carried_id_def)
  from discovery_of_new_devices
         [of "listening [completes]" ?w1 _ "fst (snd ?g1)" "snd (snd ?g1)" ?a1] g1 wf1
  have 2: "trace (snd (async_discover_devices (listening [completes]) ?w1))
             = trace (snd (snd ?g1)) @ [RefreshRequested]"
    by (simp add: Let_def kn n1)
  let ?w2 = "replying (serving (JList [dev ''A'']) (JList [dev ''B''])
                               (JList [dev ''C'']) (JList []))"
  let ?g2 = "get_all_devices fresh_client ?w2"
  let ?a2 = "\<lparr>controllers = [dev ''A''], hydrometers = [dev ''B''],
              fermentation_chambers = [dev ''C''], brewzillas = []\<rparr>"
  have "fst ?g2 = Inr ?a2" by (simp add: eval_defs)
  then have g2: "\<And>cbs. get_all_devices (api_client (listening cbs)) ?w2
                   = (Inr ?a2, fst (snd ?g2), snd (snd ?g2))"
    unfolding cl by (rule triple_of_fst)
  have wf2: "\<forall>d \<in> set (merged ?a2). well_formed_record d"
    by (simp add: merged_def dev_def well_formed_record_def)
  have n2: "first_unknown {JStr ''A'', JStr ''B''} (merged ?a2) = [dev ''C'']"
    by (simp add: merged_def dev_def first_unknown_Cons first_unknown_Nil carried_id_def)
  have cid: "carried_id (dev ''C'') = Some (JStr ''C'')"
    by (simp add: dev_def carried_id_def)
  have ok: "\<forall>cb \<in> set [completes, completes]. cb [dev ''C''] = None"
    by (simp add: completes_def)
  from discovery_of_new_devices
         [of "listening [completes, completes]" ?w2 _ "fst (snd ?g2)" "snd (snd ?g2)" ?a2]
       g2 wf2 ok
  have 3: "trace (snd (async_discover_devices (listening [completes, completes]) ?w2))
             = trace (snd (snd ?g2))
               @ [CallbackCalled 0 [dev ''C''], CallbackCalled 1 [dev ''C''], RefreshRequested]"
    and 4: "known_device_ids (fst (async_discover_devices (listening [completes, completes]) ?w2))
             = {JStr ''A'', JStr ''B'', JStr ''C''}"
    by (simp_all add: Let_def kn cb n2 cid upt_conv_Cons del: upt_Suc)
  have bad: "[dev ''C''] \<noteq> [] \<and> 0 < length [raises, completes]
               \<and> ([raises, completes] ! 0) [dev ''C''] \<noteq> None
               \<and> (\<forall>j<0. ([raises, completes] ! j) [dev ''C''] = None)"
    by (simp add: raises_def)
  from discovery_of_new_devices
         [of "listening [raises, completes]" ?w2 _ "fst (snd ?g2)" "snd (snd ?g2)" ?a2]
       g2 wf2
  have "\<forall>n. [dev ''C''] \<noteq> [] \<and> n < length [raises, completes]
               \<and> ([raises, completes] ! n) [dev ''C''] \<noteq> None
               \<and> (\<forall>j<n. ([raises, completes] ! j) [dev ''C''] = None) \<longrightarrow>
             trace (snd (async_discover_devices (listening [raises, completes]) ?w2))
               = trace (snd (snd ?g2)) @ map (\<lambda>j. CallbackCalled j [dev ''C'']) [0..<Suc n]"
    by (simp add: Let_def kn cb n2)
  with bad have 5: "trace (snd (async_discover_devices (listening [raises, completes]) ?w2))
             = trace (snd (snd ?g2)) @ [CallbackCalled 0 [dev ''C'']]"
    by fastforce
  from 1 2 3 4 5 show ?thesis by blast
qed

section \<open>The spacing of requests\<close>

text \<open>
  Run from start to end, one call of \<open>_rate_limited_request\<close> leaves a stamp that is at
  least 15 seconds after the stamp it found; neither the authentication nor the request
  touches the stamp.
\<close>

lemma authenticate_keeps_stamp:
  "last_request_time (fst (snd (authenticate c w))) = last_request_time c"
  by (simp add: authenticate_def Let_def
           split: prod.splits net_result.splits option.splits decoding.splits sum.splits bool.splits)

lemma ensure_authenticated_keeps_stamp:
  "last_request_time (fst (snd (ensure_authenticated c w))) = last_request_time c"
  by (simp add: ensure_authenticated_def authenticate_keeps_stamp)

lemma request_with_retry_keeps_stamp:
  "last_request_time (fst (snd (request_with_retry m u c w))) = last_request_time c"
proof -
  have a: "\<And>w r c' w'. authenticate c w = (r, c', w') \<Longrightarrow> last_request_time c' = last_request_time c"
    using authenticate_keeps_stamp [of c] by (metis fst_conv snd_conv)
  show ?thesis
    by (auto simp: request_with_retry_def dest: a
             split: prod.splits net_result.splits option.splits decoding.splits sum.splits)
qed

lemma clock_after_required_sleep:
  "last_request_time c = Some t \<Longrightarrow>
   t + 15000000 \<le> clock (case required_sleep (last_request_time c) (clock w) of
                            None \<Rightarrow> w | Some sleep_time \<Rightarrow> sleep sleep_time w)"
  by (auto simp: required_sleep_def sleep_def Let_def split: prod.splits)

lemma rate_limited_request_stamp:
  assumes "last_request_time c = Some t"
  shows "\<exists>t'. last_request_time (fst (snd (rate_limited_request m u c w))) = Some t'
              \<and> t + 15000000 \<le> t'"
proof -
  let ?w1 = "case required_sleep (last_request_time c) (clock w) of
               None \<Rightarrow> w | Some sleep_time \<Rightarrow> sleep sleep_time w"
  let ?c1 = "c\<lparr>last_request_time := Some (clock ?w1)\<rparr>"
  obtain r c2 w2 where e: "ensure_authenticated ?c1 ?w1 = (r, c2, w2)"
    by (cases "ensure_authenticated ?c1 ?w1")
  with ensure_authenticated_keeps_stamp [of ?c1 ?w1]
  have c2: "last_request_time c2 = Some (clock ?w1)" by simp
  have "last_request_time (fst (snd (rate_limited_request m u c w))) = Some (clock ?w1)"
  proof (cases r)
    case (Inl x)
    with e c2 show ?thesis by (simp add: rate_limited_request_def Let_def)
  next
    case (Inr y)
    with e c2 request_with_retry_keeps_stamp [of m u c2 w2] show ?thesis
      by (simp add: rate_limited_request_def Let_def)
  qed
  with clock_after_required_sleep [OF assms, of w] show ?thesis by simp
qed

lemma stamp_of_call:
  "last_request_time (fst (snd (rate_limited_request m u c w)))
     = Some (clock (case required_sleep (last_request_time c) (clock w) of
                      None \<Rightarrow> w | Some sleep_time \<Rightarrow> sleep sleep_time w))"
proof -
  let ?w1 = "case required_sleep (last_request_time c) (clock w) of
               None \<Rightarrow> w | Some sleep_time \<Rightarrow> sleep sleep_time w"
  let ?c1 = "c\<lparr>last_request_time := Some (clock ?w1)\<rparr>"
  obtain r c2 w2 where e: "ensure_authenticated ?c1 ?w1 = (r, c2, w2)"
    by (cases "ensure_authenticated ?c1 ?w1")
  with ensure_authenticated_keeps_stamp [of ?c1 ?w1]
  have c2: "last_request_time c2 = Some (clock ?w1)" by simp
  show ?thesis
  proof (cases r)
    case (Inl x)
    with e c2 show ?thesis by (simp add: rate_limited_request_def Let_def)
  next
    case (Inr y)
    with e c2 request_with_retry_keeps_stamp [of m u c2 w2] show ?thesis
      by (simp add: rate_limited_request_def Let_def)
  qed
qed

lemma world_after_required_sleep:
  "(case last_request_time c of
      None \<Rightarrow> (case required_sleep (last_request_time c) (clock w) of
                 None \<Rightarrow> w | Some sleep_time \<Rightarrow> sleep sleep_time w) = w
    | Some t \<Rightarrow>
        (case required_sleep (last_request_time c) (clock w) of
           None \<Rightarrow> w | Some sleep_time \<Rightarrow> sleep sleep_time w)
        = (if clock w - t < 15000000 then sleep (15000000 - (clock w - t)) w else w))"
  by (simp add: required_sleep_def Let_def split: option.splits)

lemma call_from_stamp:
  "rate_limited_request m u c w =
     (case ensure_authenticated
             (c\<lparr>last_request_time :=
                  Some (clock (case required_sleep (last_request_time c) (clock w) of
                                 None \<Rightarrow> w | Some sleep_time \<Rightarrow> sleep sleep_time w))\<rparr>)
             (case required_sleep (last_request_time c) (clock w) of
                None \<Rightarrow> w | Some sleep_time \<Rightarrow> sleep sleep_time w) of
        (Inl e, c2, w2) \<Rightarrow> (Inl e, c2, w2)
      | (Inr x, c2, w2) \<Rightarrow> request_with_retry m u c2 w2)"
  by (simp add: rate_limited_request_def Let_def)

lemma spaced_snoc:
  "spaced (ts @ [t]) = (spaced ts \<and> (ts = [] \<or> 15000000 \<le> t - last ts))"
  by (auto simp: spaced_def successively_append_iff)

lemma gate_inv_init: "gate_inv (init t0)"
  by (simp add: gate_inv_def init_def in_gate_def spaced_def)

lemma required_sleep_None:
  "required_sleep (Some t) now = None \<Longrightarrow> t + 15000000 \<le> now"
  by (simp add: required_sleep_def Let_def split: if_splits)

lemma required_sleep_Some:
  "required_sleep (Some t) now = Some d \<Longrightarrow> t + 15000000 = now + d"
  by (auto simp: required_sleep_def Let_def split: if_splits)

lemma gate_invI:
  assumes "spaced (stamped g)"
      and "last_request g = (if stamped g = [] then None else Some (last (stamped g)))"
      and "\<And>i j. in_gate (pcs g i) \<Longrightarrow> in_gate (pcs g j) \<Longrightarrow> i = j"
      and "\<And>i. \<not> locked g \<Longrightarrow> \<not> in_gate (pcs g i)"
      and "\<And>i d t. pcs g i = ToSleep d \<Longrightarrow> last_request g = Some t \<Longrightarrow>
             t + 15000000 \<le> time g + d"
      and "\<And>i u t. pcs g i = Sleeping u \<Longrightarrow> last_request g = Some t \<Longrightarrow> t + 15000000 \<le> u"
      and "\<And>i t. pcs g i = ToStamp \<Longrightarrow> last_request g = Some t \<Longrightarrow> t + 15000000 \<le> time g"
  shows "gate_inv g"
  unfolding gate_inv_def using assms by blast

lemma gate_invD:
  assumes "gate_inv g"
  shows "spaced (stamped g)"
    and "last_request g = (if stamped g = [] then None else Some (last (stamped g)))"
    and "in_gate (pcs g i) \<Longrightarrow> in_gate (pcs g j) \<Longrightarrow> i = j"
    and "\<not> locked g \<Longrightarrow> \<not> in_gate (pcs g i)"
    and "pcs g i = ToSleep d \<Longrightarrow> last_request g = Some t \<Longrightarrow> t + 15000000 \<le> time g + d"
    and "pcs g i = Sleeping u \<Longrightarrow> last_request g = Some t \<Longrightarrow> t + 15000000 \<le> u"
    and "pcs g i = ToStamp \<Longrightarrow> last_request g = Some t \<Longrightarrow> t + 15000000 \<le> time g"
  using assms unfolding gate_inv_def by blast+

lemma gate_inv_Tick:
  assumes "gate_inv g"
  shows "gate_inv (g\<lparr>time := time g + int d\<rparr>)"
proof (rule gate_invI)
  fix i e t
  assume "pcs (g\<lparr>time := time g + int d\<rparr>) i = ToSleep e"
     and "last_request (g\<lparr>time := time g + int d\<rparr>) = Some t"
  then have "t + 15000000 \<le> time g + e" using gate_invD(5) [OF assms] by simp
  then show "t + 15000000 \<le> time (g\<lparr>time := time g + int d\<rparr>) + e" by simp
next
  fix i t
  assume "pcs (g\<lparr>time := time g + int d\<rparr>) i = ToStamp"
     and "last_request (g\<lparr>time := time g + int d\<rparr>) = Some t"
  then have "t + 15000000 \<le> time g" using gate_invD(7) [OF assms] by simp
  then show "t + 15000000 \<le> time (g\<lparr>time := time g + int d\<rparr>)" by simp
qed (use gate_invD [OF assms] in simp_all)

lemma gate_inv_outside:
  assumes inv: "gate_inv g" and new: "\<not> in_gate p'"
  shows "gate_inv (g\<lparr>pcs := (pcs g)(i := p')\<rparr>)"
proof (rule gate_invI)
  let ?g = "g\<lparr>pcs := (pcs g)(i := p')\<rparr>"
  have g: "\<And>x. in_gate (pcs ?g x) \<Longrightarrow> in_gate (pcs g x)"
    using new by (simp split: if_splits)
  show "\<And>a b. in_gate (pcs ?g a) \<Longrightarrow> in_gate (pcs ?g b) \<Longrightarrow> a = b"
    using g gate_invD(3) [OF inv] by blast
  show "\<And>a. \<not> locked ?g \<Longrightarrow> \<not> in_gate (pcs ?g a)"
  proof
    fix a
    assume "\<not> locked ?g" and "in_gate (pcs ?g a)"
    then have "\<not> locked g" and "in_gate (pcs g a)" using g by simp_all
    then show False using gate_invD(4) [OF inv] by blast
  qed
  show "\<And>x d t. pcs ?g x = ToSleep d \<Longrightarrow> last_request ?g = Some t \<Longrightarrow>
          t + 15000000 \<le> time ?g + d"
  proof -
    fix x d t
    assume a: "pcs ?g x = ToSleep d" and l: "last_request ?g = Some t"
    from a have "pcs g x = ToSleep d" using new by (auto simp: in_gate_def split: if_splits)
    with l show "t + 15000000 \<le> time ?g + d" using gate_invD(5) [OF inv, of x d t] by simp
  qed
  show "\<And>x u t. pcs ?g x = Sleeping u \<Longrightarrow> last_request ?g = Some t \<Longrightarrow> t + 15000000 \<le> u"
  proof -
    fix x u t
    assume a: "pcs ?g x = Sleeping u" and l: "last_request ?g = Some t"
    from a have "pcs g x = Sleeping u" using new by (auto simp: in_gate_def split: if_splits)
    with l show "t + 15000000 \<le> u" using gate_invD(6) [OF inv, of x u t] by simp
  qed
  show "\<And>x t. pcs ?g x = ToStamp \<Longrightarrow> last_request ?g = Some t \<Longrightarrow> t + 15000000 \<le> time ?g"
  proof -
    fix x t
    assume a: "pcs ?g x = ToStamp" and l: "last_request ?g = Some t"
    from a have "pcs g x = ToStamp" using new by (auto simp: in_gate_def split: if_splits)
    with l show "t + 15000000 \<le> time ?g" using gate_invD(7) [OF inv, of x t] by simp
  qed
qed (use gate_invD(1,2) [OF inv] in simp_all)

lemma gate_inv_Acquire:
  assumes inv: "gate_inv g" and free: "\<not> locked g"
  shows "gate_inv (g\<lparr>locked := True, pcs := (pcs g)(i := Entered)\<rparr>)"
proof (rule gate_invI)
  let ?g = "g\<lparr>locked := True, pcs := (pcs g)(i := Entered)\<rparr>"
  have none: "\<And>x. \<not> in_gate (pcs g x)" using gate_invD(4) [OF inv free] .
  have g: "\<And>x. in_gate (pcs ?g x) \<Longrightarrow> x = i"
    using none by (simp split: if_splits)
  show "\<And>a b. in_gate (pcs ?g a) \<Longrightarrow> in_gate (pcs ?g b) \<Longrightarrow> a = b"
    using g by blast
  show "\<And>a. \<not> locked ?g \<Longrightarrow> \<not> in_gate (pcs ?g a)" by simp
  show "\<And>x d t. pcs ?g x = ToSleep d \<Longrightarrow> last_request ?g = Some t \<Longrightarrow>
          t + 15000000 \<le> time ?g + d"
  proof -
    fix x d t
    assume a: "pcs ?g x = ToSleep d" and l: "last_request ?g = Some t"
    from a have "pcs g x = ToSleep d" using none [of x] by (auto simp: in_gate_def split: if_splits)
    with l show "t + 15000000 \<le> time ?g + d" using gate_invD(5) [OF inv, of x d t] by simp
  qed
  show "\<And>x u t. pcs ?g x = Sleeping u \<Longrightarrow> last_request ?g = Some t \<Longrightarrow> t + 15000000 \<le> u"
  proof -
    fix x u t
    assume a: "pcs ?g x = Sleeping u" and l: "last_request ?g = Some t"
    from a have "pcs g x = Sleeping u" using none [of x] by (auto simp: in_gate_def split: if_splits)
    with l show "t + 15000000 \<le> u" using gate_invD(6) [OF inv, of x u t] by simp
  qed
  show "\<And>x t. pcs ?g x = ToStamp \<Longrightarrow> last_request ?g = Some t \<Longrightarrow> t + 15000000 \<le> time ?g"
  proof -
    fix x t
    assume a: "pcs ?g x = ToStamp" and l: "last_request ?g = Some t"
    from a have "pcs g x = ToStamp" using none [of x] by (auto simp: in_gate_def split: if_splits)
    with l show "t + 15000000 \<le> time ?g" using gate_invD(7) [OF inv, of x t] by simp
  qed
qed (use gate_invD(1,2) [OF inv] in simp_all)

lemma gate_inv_within:
  assumes inv: "gate_inv g" and cur: "in_gate (pcs g i)" and new: "in_gate p'"
      and t1: "\<And>d t. p' = ToSleep d \<Longrightarrow> last_request g = Some t \<Longrightarrow>
                 t + 15000000 \<le> time g + d"
      and t2: "\<And>u t. p' = Sleeping u \<Longrightarrow> last_request g = Some t \<Longrightarrow> t + 15000000 \<le> u"
      and t3: "\<And>t. p' = ToStamp \<Longrightarrow> last_request g = Some t \<Longrightarrow> t + 15000000 \<le> time g"
  shows "gate_inv (g\<lparr>pcs := (pcs g)(i := p')\<rparr>)"
proof (rule gate_invI)
  let ?g = "g\<lparr>pcs := (pcs g)(i := p')\<rparr>"
  have g: "\<And>x. in_gate (pcs ?g x) \<Longrightarrow> in_gate (pcs g x)"
    using cur by (simp split: if_splits)
  show "\<And>a b. in_gate (pcs ?g a) \<Longrightarrow> in_gate (pcs ?g b) \<Longrightarrow> a = b"
    using g gate_invD(3) [OF inv] by blast
  show "\<And>a. \<not> locked ?g \<Longrightarrow> \<not> in_gate (pcs ?g a)"
  proof
    fix a
    assume "\<not> locked ?g" and "in_gate (pcs ?g a)"
    then have "\<not> locked g" and "in_gate (pcs g a)" using g by simp_all
    then show False using gate_invD(4) [OF inv] by blast
  qed
  show "\<And>x d t. pcs ?g x = ToSleep d \<Longrightarrow> last_request ?g = Some t \<Longrightarrow>
          t + 15000000 \<le> time ?g + d"
  proof -
    fix x d t
    assume a: "pcs ?g x = ToSleep d" and l: "last_request ?g = Some t"
    show "t + 15000000 \<le> time ?g + d"
    proof (cases "x = i")
      case True
      with a l show ?thesis using t1 [of d t] by simp
    next
      case False
      with a l show ?thesis using gate_invD(5) [OF inv, of x d t] by simp
    qed
  qed
  show "\<And>x u t. pcs ?g x = Sleeping u \<Longrightarrow> last_request ?g = Some t \<Longrightarrow> t + 15000000 \<le> u"
  proof -
    fix x u t
    assume a: "pcs ?g x = Sleeping u" and l: "last_request ?g = Some t"
    show "t + 15000000 \<le> u"
    proof (cases "x = i")
      case True
      with a l show ?thesis using t2 [of u t] by simp
    next
      case False
      with a l show ?thesis using gate_invD(6) [OF inv, of x u t] by simp
    qed
  qed
  show "\<And>x t. pcs ?g x = ToStamp \<Longrightarrow> last_request ?g = Some t \<Longrightarrow> t + 15000000 \<le> time ?g"
  proof -
    fix x t
    assume a: "pcs ?g x = ToStamp" and l: "last_request ?g = Some t"
    show "t + 15000000 \<le> time ?g"
    proof (cases "x = i")
      case True
      with a l show ?thesis using t3 [of t] by simp
    next
      case False
      with a l show ?thesis using gate_invD(7) [OF inv, of x t] by simp
    qed
  qed
qed (use gate_invD(1,2) [OF inv] in simp_all)

lemma gate_inv_Stamp:
  assumes inv: "gate_inv g" and cur: "pcs g i = ToStamp"
  shows "gate_inv (g\<lparr>last_request := Some (time g), stamped := stamped g @ [time g],
                     pcs := (pcs g)(i := InFlight)\<rparr>)"
proof (rule gate_invI)
  let ?g = "g\<lparr>last_request := Some (time g), stamped := stamped g @ [time g],
              pcs := (pcs g)(i := InFlight)\<rparr>"
  have ing: "in_gate (pcs g i)" using cur by (simp add: in_gate_def)
  have others: "\<And>x. x \<noteq> i \<Longrightarrow> \<not> in_gate (pcs g x)"
    using gate_invD(3) [OF inv _ ing] by blast
  have g: "\<And>x. in_gate (pcs ?g x) \<Longrightarrow> in_gate (pcs g x)"
    using ing by (simp split: if_splits)
  show "spaced (stamped ?g)"
  proof (cases "stamped g = []")
    case True
    then show ?thesis by (simp add: spaced_def)
  next
    case False
    with gate_invD(2) [OF inv] have "last_request g = Some (last (stamped g))" by simp
    from gate_invD(7) [OF inv cur this] gate_invD(1) [OF inv] show ?thesis
      by (simp add: spaced_snoc)
  qed
  show "last_request ?g = (if stamped ?g = [] then None else Some (last (stamped ?g)))"
    by simp
  show "\<And>a b. in_gate (pcs ?g a) \<Longrightarrow> in_gate (pcs ?g b) \<Longrightarrow> a = b"
    using g gate_invD(3) [OF inv] by blast
  show "\<And>a. \<not> locked ?g \<Longrightarrow> \<not> in_gate (pcs ?g a)"
  proof
    fix a
    assume "\<not> locked ?g" and "in_gate (pcs ?g a)"
    then have "\<not> locked g" and "in_gate (pcs g a)" using g by simp_all
    then show False using gate_invD(4) [OF inv] by blast
  qed
  have no: "pcs ?g x = InFlight \<or> \<not> in_gate (pcs ?g x)" for x
  proof (cases "x = i")
    case True
    then show ?thesis by simp
  next
    case False
    with others [OF False] show ?thesis by simp
  qed
  show "\<And>x d t. pcs ?g x = ToSleep d \<Longrightarrow> last_request ?g = Some t \<Longrightarrow>
          t + 15000000 \<le> time ?g + d"
  proof -
    fix x d t
    assume "pcs ?g x = ToSleep d"
    with no [of x] show "t + 15000000 \<le> time ?g + d" by (simp add: in_gate_def)
  qed
  show "\<And>x u t. pcs ?g x = Sleeping u \<Longrightarrow> last_request ?g = Some t \<Longrightarrow> t + 15000000 \<le> u"
  proof -
    fix x u t
    assume "pcs ?g x = Sleeping u"
    with no [of x] show "t + 15000000 \<le> u" by (simp add: in_gate_def)
  qed
  show "\<And>x t. pcs ?g x = ToStamp \<Longrightarrow> last_request ?g = Some t \<Longrightarrow> t + 15000000 \<le> time ?g"
  proof -
    fix x t
    assume "pcs ?g x = ToStamp"
    with no [of x] show "t + 15000000 \<le> time ?g" by (simp add: in_gate_def)
  qed
qed

lemma gate_inv_leave:
  assumes inv: "gate_inv g" and ing: "in_gate (pcs g i)"
  shows "gate_inv (g\<lparr>locked := False, pcs := (pcs g)(i := Idle)\<rparr>)"
proof (rule gate_invI)
  let ?g = "g\<lparr>locked := False, pcs := (pcs g)(i := Idle)\<rparr>"
  have others: "\<And>x. x \<noteq> i \<Longrightarrow> \<not> in_gate (pcs g x)"
    using gate_invD(3) [OF inv _ ing] by blast
  have none: "\<not> in_gate (pcs ?g x)" for x
  proof (cases "x = i")
    case True
    then show ?thesis by (simp add: in_gate_def)
  next
    case False
    with others [OF False] show ?thesis by simp
  qed
  show "\<And>a b. in_gate (pcs ?g a) \<Longrightarrow> in_gate (pcs ?g b) \<Longrightarrow> a = b"
    using none by blast
  show "\<And>a. \<not> locked ?g \<Longrightarrow> \<not> in_gate (pcs ?g a)"
    using none by blast
  have no: "pcs ?g x = Idle \<or> \<not> in_gate (pcs ?g x)" for x
  proof (cases "x = i")
    case True
    then show ?thesis by simp
  next
    case False
    with others [OF False] show ?thesis by simp
  qed
  show "\<And>x d t. pcs ?g x = ToSleep d \<Longrightarrow> last_request ?g = Some t \<Longrightarrow>
          t + 15000000 \<le> time ?g + d"
  proof -
    fix x d t
    assume "pcs ?g x = ToSleep d"
    with no [of x] show "t + 15000000 \<le> time ?g + d" by (simp add: in_gate_def)
  qed
  show "\<And>x u t. pcs ?g x = Sleeping u \<Longrightarrow> last_request ?g = Some t \<Longrightarrow> t + 15000000 \<le> u"
  proof -
    fix x u t
    assume "pcs ?g x = Sleeping u"
    with no [of x] show "t + 15000000 \<le> u" by (simp add: in_gate_def)
  qed
  show "\<And>x t. pcs ?g x = ToStamp \<Longrightarrow> last_request ?g = Some t \<Longrightarrow> t + 15000000 \<le> time ?g"
  proof -
    fix x t
    assume "pcs ?g x = ToStamp"
    with no [of x] show "t + 15000000 \<le> time ?g" by (simp add: in_gate_def)
  qed
qed (use gate_invD(1,2) [OF inv] in simp_all)

lemma gate_inv_exec:
  assumes inv: "gate_inv g" and ex: "exec a g = Some g'"
  shows "gate_inv g'"
proof (cases a)
  case (Tick d)
  with ex have "g' = g\<lparr>time := time g + int d\<rparr>" by simp
  with gate_inv_Tick [OF inv] show ?thesis by simp
next
  case (Call i)
  with ex have "g' = g\<lparr>pcs := (pcs g)(i := AtLock)\<rparr>" by (simp split: if_splits)
  with gate_inv_outside [OF inv, of AtLock i] show ?thesis by (simp add: in_gate_def)
next
  case (Acquire i)
  with ex have "\<not> locked g" and "g' = g\<lparr>locked := True, pcs := (pcs g)(i := Entered)\<rparr>"
    by (simp_all split: if_splits)
  with gate_inv_Acquire [OF inv] show ?thesis by simp
next
  case (Check i)
  define p' where "p' = (case required_sleep (last_request g) (time g) of
                             None \<Rightarrow> ToStamp | Some sleep_time \<Rightarrow> ToSleep sleep_time)"
  from Check ex have cur: "pcs g i = Entered" and g': "g' = g\<lparr>pcs := (pcs g)(i := p')\<rparr>"
    by (simp_all add: p'_def split: if_splits)
  have "gate_inv (g\<lparr>pcs := (pcs g)(i := p')\<rparr>)"
  proof (rule gate_inv_within [OF inv])
    show "in_gate (pcs g i)" using cur by (simp add: in_gate_def)
    show "in_gate p'" by (simp add: p'_def in_gate_def split: option.splits)
    show "\<And>d t. p' = ToSleep d \<Longrightarrow> last_request g = Some t \<Longrightarrow> t + 15000000 \<le> time g + d"
      using required_sleep_Some by (fastforce simp: p'_def split: option.splits)
    show "\<And>u t. p' = Sleeping u \<Longrightarrow> last_request g = Some t \<Longrightarrow> t + 15000000 \<le> u"
      by (simp add: p'_def split: option.splits)
    show "\<And>t. p' = ToStamp \<Longrightarrow> last_request g = Some t \<Longrightarrow> t + 15000000 \<le> time g"
      using required_sleep_None by (fastforce simp: p'_def split: option.splits)
  qed
  with g' show ?thesis by simp
next
  case (StartSleep i)
  with ex obtain d where cur: "pcs g i = ToSleep d"
    and g': "g' = g\<lparr>pcs := (pcs g)(i := Sleeping (time g + d))\<rparr>"
    by (auto split: pc.splits)
  have "gate_inv (g\<lparr>pcs := (pcs g)(i := Sleeping (time g + d))\<rparr>)"
  proof (rule gate_inv_within [OF inv])
    show "in_gate (pcs g i)" using cur by (simp add: in_gate_def)
    show "in_gate (Sleeping (time g + d))" by (simp add: in_gate_def)
    show "\<And>u t. Sleeping (time g + d) = Sleeping u \<Longrightarrow> last_request g = Some t \<Longrightarrow>
            t + 15000000 \<le> u"
      using gate_invD(5) [OF inv cur] by auto
  qed simp_all
  with g' show ?thesis by simp
next
  case (Wake i)
  with ex obtain u where cur: "pcs g i = Sleeping u" and due: "u \<le> time g"
    and g': "g' = g\<lparr>pcs := (pcs g)(i := ToStamp)\<rparr>"
    by (auto split: pc.splits if_splits)
  have "gate_inv (g\<lparr>pcs := (pcs g)(i := ToStamp)\<rparr>)"
  proof (rule gate_inv_within [OF inv])
    show "in_gate (pcs g i)" using cur by (simp add: in_gate_def)
    show "in_gate ToStamp" by (simp add: in_gate_def)
    show "\<And>t. ToStamp = ToStamp \<Longrightarrow> last_request g = Some t \<Longrightarrow> t + 15000000 \<le> time g"
      using gate_invD(6) [OF inv cur] due by fastforce
  qed simp_all
  with g' show ?thesis by simp
next
  case (Stamp i)
  with ex have "pcs g i = ToStamp"
    and "g' = g\<lparr>last_request := Some (time g), stamped := stamped g @ [time g],
                   pcs := (pcs g)(i := InFlight)\<rparr>"
    by (simp_all split: if_splits)
  with gate_inv_Stamp [OF inv] show ?thesis by simp
next
  case (Finish i)
  with ex have "pcs g i = InFlight"
    and "g' = g\<lparr>locked := False, pcs := (pcs g)(i := Idle)\<rparr>"
    by (simp_all split: if_splits)
  with gate_inv_leave [OF inv, of i] show ?thesis by (simp add: in_gate_def)
next
  case (Cancel i)
  show ?thesis
  proof (cases "pcs g i = AtLock")
    case True
    with Cancel ex have "g' = g\<lparr>pcs := (pcs g)(i := Idle)\<rparr>" by simp
    with gate_inv_outside [OF inv, of Idle i] show ?thesis by (simp add: in_gate_def)
  next
    case False
    with Cancel ex obtain u where "pcs g i = Sleeping u"
      and "g' = g\<lparr>locked := False, pcs := (pcs g)(i := Idle)\<rparr>"
      by (auto split: pc.splits)
    with gate_inv_leave [OF inv, of i] show ?thesis by (simp add: in_gate_def)
  qed
qed

lemma gate_inv_run: "gate_inv g \<Longrightarrow> run acts g = Some g' \<Longrightarrow> gate_inv g'"
proof (induction acts arbitrary: g)
  case Nil
  then show ?case by simp
next
  case (Cons a acts)
  then obtain g1 where "exec a g = Some g1" and "run acts g1 = Some g'"
    by (auto split: option.splits)
  with Cons show ?case by (blast intro: gate_inv_exec)
qed

lemma alone_stamps:
  "\<exists>g1. run (alone i c w) (gate_of c w) = Some g1
        \<and> time g1 = clock (case required_sleep (last_request_time c) (clock w) of
                              None \<Rightarrow> w | Some sleep_time \<Rightarrow> sleep sleep_time w)
        \<and> last_request g1 = Some (time g1)
        \<and> pcs g1 i = InFlight"
proof (cases "required_sleep (last_request_time c) (clock w)")
  case None
  then show ?thesis by (simp add: alone_def gate_of_def)
next
  case (Some d)
  then have "0 < d" by (auto simp: required_sleep_def Let_def split: option.splits if_splits)
  with Some show ?thesis
    by (simp add: alone_def gate_of_def sleep_def split: prod.splits)
qed

text \<open>
  The instants at which the requests leave can be closer than 15 seconds.
  \<open>request_with_retry\<close> sends its request in the world it is entered with. A client
  without a token calls twice, one call after the other; the token request of the first
  call takes 14 seconds. The first call stamps at 1 s and its GET leaves at
  15 s, when the token is there; the reply comes at 16 s, which is 15 seconds after the
  stamp, so the second call does not sleep and its GET leaves at 16 s, one second after
  the first. And within one call, a GET answered with a 401 is followed by the
  re-authentication and the retry with no sleep and no new stamp: the two GET requests
  of that call leave within 12 microseconds.
\<close>

theorem successive_calls_are_spaced_counterexample:
  "rate_limited_request ''GET'' ''url'' fresh_client (replying slow_login)
     = request_with_retry ''GET'' ''url''
         (fresh_client\<lparr>bearer_token := JStr ''T1'', token_expires_at := Some 2715000000,
                        last_request_time := Some 1000000\<rparr>)
         ((replying slow_login)\<lparr>clock := 15000000, trace := [auth_post fresh_client]\<rparr>)
   \<and> rate_limited_request ''GET'' ''url'' fresh_client (replying slow_login)
     = (Inr (JList []),
        fresh_client\<lparr>bearer_token := JStr ''T1'', token_expires_at := Some 2715000000,
                       last_request_time := Some 1000000\<rparr>,
        (replying slow_login)
          \<lparr>clock := 16000000,
            trace := [auth_post fresh_client, Request ''GET'' ''url'' (JStr ''T1'')]\<rparr>)
   \<and> rate_limited_request ''GET'' ''url''
        (fresh_client\<lparr>bearer_token := JStr ''T1'', token_expires_at := Some 2715000000,
                       last_request_time := Some 1000000\<rparr>)
        ((replying slow_login)
           \<lparr>clock := 16000000,
             trace := [auth_post fresh_client, Request ''GET'' ''url'' (JStr ''T1'')]\<rparr>)
     = request_with_retry ''GET'' ''url''
         (fresh_client\<lparr>bearer_token := JStr ''T1'', token_expires_at := Some 2715000000,
                        last_request_time := Some 16000000\<rparr>)
         ((replying slow_login)
            \<lparr>clock := 16000000,
              trace := [auth_post fresh_client, Request ''GET'' ''url'' (JStr ''T1'')]\<rparr>)
   \<and> trace (snd (snd (rate_limited_request ''GET'' ''url'' fresh_client (replying rejecting_once))))
     = [auth_post fresh_client, Request ''GET'' ''url'' (JStr ''T1''),
        auth_post fresh_client, Request ''GET'' ''url'' (JStr ''T2'')]
   \<and> clock (snd (snd (rate_limited_request ''GET'' ''url'' fresh_client (replying rejecting_once))))
     = clock (replying rejecting_once) + 12
   \<and> last_request_time
        (fst (snd (rate_limited_request ''GET'' ''url'' fresh_client (replying rejecting_once))))
     = Some (clock (replying rejecting_once))"
  by (simp add: call_defs slow_login_def rejecting_once_def auth_post_def)

text \<open>
  Claim C1, as the code has it. A call of \<open>_rate_limited_request\<close> stamps
  \<open>_last_request_time\<close> with the reading of the clock after the sleep it computed, at
  least 15 seconds after the stamp it found: it sleeps for what is missing to 15 seconds
  when the clock reads less than that after the old stamp, and not at all otherwise or
  when there is no old stamp.
  Authentication and the request come after the stamp, from the world of the stamp; a
  call that holds a token still valid at the stamp sends its request at the stamp. The
  next call on the same client, whenever it is made, stamps at least 15 seconds after
  this one. The lock is held over the check of the spacing, the sleep, the stamp, the
  authentication and the request: however the event loop interleaves the tasks that
  call, at no moment are two of them past the lock, and the instants stamped one after
  the other are at least 15 seconds apart; a task that goes through the gate alone
  stamps the instant \<open>rate_limited_request\<close> stamps. The clock of the model does not run
  backwards, a sleep does not end early, and the arithmetic on instants is exact.
\<close>

theorem successive_calls_are_spaced:
  assumes "rate_limited_request m u c w = (r, c', w')"
      and "rate_limited_request m2 u2 c' v = (r2, c'', v')"
      and "run acts (init t0) = Some g"
  shows "\<exists>stamp w1 stamp2 g1.
           last_request_time c' = Some stamp \<and> clock w1 = stamp
         \<and> (case last_request_time c of
               None \<Rightarrow> w1 = w
             | Some t \<Rightarrow>
                 t + 15000000 \<le> stamp
                 \<and> w1 = (if clock w - t < 15000000
                         then sleep (15000000 - (clock w - t)) w else w))
         \<and> (r, c', w') =
             (case ensure_authenticated (c\<lparr>last_request_time := Some stamp\<rparr>) w1 of
                (Inl e, c2, w2) \<Rightarrow> (Inl e, c2, w2)
              | (Inr x, c2, w2) \<Rightarrow> request_with_retry m u c2 w2)
         \<and> (bearer_token c \<noteq> JNull \<and> (\<exists>t. token_expires_at c = Some t \<and> stamp < t) \<longrightarrow>
              (r, c', w') = request_with_retry m u (c\<lparr>last_request_time := Some stamp\<rparr>) w1)
         \<and> last_request_time c'' = Some stamp2 \<and> stamp + 15000000 \<le> stamp2
         \<and> successively (\<lambda>a b. 15000000 \<le> b - a) (stamped g)
         \<and> (\<forall>i j. in_gate (pcs g i) \<and> in_gate (pcs g j) \<longrightarrow> i = j)
         \<and> run (alone 0 c w) (gate_of c w) = Some g1
         \<and> last_request g1 = Some stamp \<and> time g1 = stamp \<and> pcs g1 0 = InFlight"
proof -
  define w1 where "w1 = (case required_sleep (last_request_time c) (clock w) of
                           None \<Rightarrow> w | Some sleep_time \<Rightarrow> sleep sleep_time w)"
  define stamp where "stamp = clock w1"
  have s1: "last_request_time c' = Some stamp"
    using stamp_of_call [of m u c w] assms(1) by (simp add: stamp_def w1_def)
  have sh: "case last_request_time c of
               None \<Rightarrow> w1 = w
             | Some t \<Rightarrow>
                 t + 15000000 \<le> stamp
                 \<and> w1 = (if clock w - t < 15000000
                         then sleep (15000000 - (clock w - t)) w else w)"
  proof (cases "last_request_time c")
    case None
    then show ?thesis by (simp add: w1_def required_sleep_def)
  next
    case (Some t)
    with clock_after_required_sleep [OF Some, where w = w]
         world_after_required_sleep [where c = c and w = w]
    show ?thesis by (simp add: w1_def stamp_def)
  qed
  have eq: "(r, c', w') =
             (case ensure_authenticated (c\<lparr>last_request_time := Some stamp\<rparr>) w1 of
                (Inl e, c2, w2) \<Rightarrow> (Inl e, c2, w2)
              | (Inr x, c2, w2) \<Rightarrow> request_with_retry m u c2 w2)"
    using call_from_stamp [of m u c w] assms(1) by (simp add: stamp_def w1_def)
  have va: "bearer_token c \<noteq> JNull \<and> (\<exists>t. token_expires_at c = Some t \<and> stamp < t) \<longrightarrow>
              (r, c', w') = request_with_retry m u (c\<lparr>last_request_time := Some stamp\<rparr>) w1"
  proof
    assume "bearer_token c \<noteq> JNull \<and> (\<exists>t. token_expires_at c = Some t \<and> stamp < t)"
    then have "ensure_authenticated (c\<lparr>last_request_time := Some stamp\<rparr>) w1
                 = (Inr (), c\<lparr>last_request_time := Some stamp\<rparr>, w1)"
      by (auto simp: ensure_authenticated_def stamp_def)
    with eq show "(r, c', w') = request_with_retry m u (c\<lparr>last_request_time := Some stamp\<rparr>) w1"
      by simp
  qed
  from rate_limited_request_stamp [OF s1, of m2 u2 v] assms(2)
  obtain stamp2 where s2: "last_request_time c'' = Some stamp2" "stamp + 15000000 \<le> stamp2"
    by auto
  from gate_inv_run [OF gate_inv_init assms(3)] have "gate_inv g" .
  then have b: "successively (\<lambda>a b. 15000000 \<le> b - a) (stamped g)
         \<and> (\<forall>i j. in_gate (pcs g i) \<and> in_gate (pcs g j) \<longrightarrow> i = j)"
    by (simp add: gate_inv_def spaced_def)
  from alone_stamps [of 0 c w] obtain g1 where
    l: "run (alone 0 c w) (gate_of c w) = Some g1" "last_request g1 = Some stamp"
       "time g1 = stamp" "pcs g1 0 = InFlight"
    by (auto simp: stamp_def w1_def)
  have cl: "clock w1 = stamp" by (simp add: stamp_def)
  from s1 cl sh eq va s2 b l show ?thesis by blast
qed

theorem successive_calls_are_spaced_witness:
  "rate_limited_request ''GET'' ''url'' (token_client ''T1'') (replying quiet)
     = (Inr (JList []), (token_client ''T1'')\<lparr>last_request_time := Some 16000000\<rparr>,
        (replying quiet)\<lparr>clock := 16000000,
                          trace := [Sleep 15000000, Request ''GET'' ''url'' (JStr ''T1'')]\<rparr>)
   \<and> rate_limited_request ''GET'' ''url'' (token_client ''T1'') (replying quiet)
     = request_with_retry ''GET'' ''url''
         ((token_client ''T1'')\<lparr>last_request_time := Some 16000000\<rparr>)
         (sleep 15000000 (replying quiet))
   \<and> last_request_time (fst (snd (rate_limited_request ''GET'' ''url''
         ((token_client ''T1'')\<lparr>last_request_time := Some 16000000\<rparr>)
         ((replying quiet)\<lparr>clock := 16000000,
                           trace := [Sleep 15000000, Request ''GET'' ''url'' (JStr ''T1'')]\<rparr>))))
     = Some 31000000
   \<and> map_option stamped
       (run [Call 0, Call 1, Acquire 0, Check 0, Stamp 0, Tick 5, Finish 0, Acquire 1, Check 1,
             StartSleep 1, Tick 15000000, Wake 1, Stamp 1] (init 7))
     = Some [7, 15000012]
   \<and> successively (\<lambda>a b. 15000000 \<le> b - a) [7, 15000012::int]
   \<and> run [Call 0, Call 1, Acquire 0, Acquire 1] (init 7) = None
   \<and> map_option last_request
       (run (alone 0 (token_client ''T1'') (replying quiet))
            (gate_of (token_client ''T1'') (replying quiet)))
     = Some (Some 16000000)"
proof -
  let ?c = "token_client ''T1''"
  let ?w = "replying quiet"
  let ?c' = "?c\<lparr>last_request_time := Some 16000000\<rparr>"
  let ?w' = "?w\<lparr>clock := 16000000,
                 trace := [Sleep 15000000, Request ''GET'' ''url'' (JStr ''T1'')]\<rparr>"
  let ?acts = "[Call 0, Call 1, Acquire 0, Check 0, Stamp 0, Tick 5, Finish 0, Acquire 1, Check 1,
                StartSleep 1, Tick 15000000, Wake 1, Stamp 1]"
  have h1: "rate_limited_request ''GET'' ''url'' ?c ?w = (Inr (JList []), ?c', ?w')"
    by (simp add: call_defs quiet_def)
  obtain r2 c2 v2 where h2: "rate_limited_request ''GET'' ''url'' ?c' ?w' = (r2, c2, v2)"
    by (cases "rate_limited_request ''GET'' ''url'' ?c' ?w'")
  have e2: "last_request_time (fst (snd (rate_limited_request ''GET'' ''url'' ?c' ?w')))
              = Some 31000000"
    by (simp add: call_defs quiet_def)
  obtain g where h3: "run ?acts (init 7) = Some g" and s: "stamped g = [7, 15000012]"
    by (simp add: init_def required_sleep_def)
  have n: "run [Call 0, Call 1, Acquire 0, Acquire 1] (init 7) = None"
    by (simp add: init_def)
  have old: "last_request_time ?c = Some 1000000" "clock ?w = 1000000"
    "bearer_token ?c \<noteq> JNull" "token_expires_at ?c = Some 2701000000"
    by (simp_all add: token_client_def fresh_client_def replying_def)
  have new: "last_request_time ?c' = Some 16000000" by simp
  from successive_calls_are_spaced [OF h1 h2 h3] obtain stamp w1 stamp2 g1 where
    a: "last_request_time ?c' = Some stamp"
    and b: "case last_request_time ?c of
               None \<Rightarrow> w1 = ?w
             | Some t \<Rightarrow>
                 t + 15000000 \<le> stamp
                 \<and> w1 = (if clock ?w - t < 15000000
                         then sleep (15000000 - (clock ?w - t)) ?w else ?w)"
    and d: "bearer_token ?c \<noteq> JNull \<and> (\<exists>t. token_expires_at ?c = Some t \<and> stamp < t) \<longrightarrow>
              (Inr (JList []), ?c', ?w')
                = request_with_retry ''GET'' ''url'' (?c\<lparr>last_request_time := Some stamp\<rparr>) w1"
    and f: "last_request_time c2 = Some stamp2" "stamp + 15000000 \<le> stamp2"
    and sp: "successively (\<lambda>a b. 15000000 \<le> b - a) (stamped g)"
    and l: "run (alone 0 ?c ?w) (gate_of ?c ?w) = Some g1" "last_request g1 = Some stamp"
    by blast
  from a new have st: "stamp = 16000000" by simp
  from b old have w1: "w1 = sleep 15000000 ?w" by simp
  from d old st have "(Inr (JList []), ?c', ?w')
                = request_with_retry ''GET'' ''url'' (?c\<lparr>last_request_time := Some stamp\<rparr>) w1"
    by simp
  with h1 st w1 have 2: "rate_limited_request ''GET'' ''url'' ?c ?w
     = request_with_retry ''GET'' ''url'' ?c' (sleep 15000000 ?w)"
    by simp
  from l st have 5: "map_option last_request (run (alone 0 ?c ?w) (gate_of ?c ?w))
                       = Some (Some 16000000)"
    by simp
  from sp s have 4: "successively (\<lambda>a b. 15000000 \<le> b - a) [7, 15000012::int]" by simp
  from h3 s have 3: "map_option stamped (run ?acts (init 7)) = Some [7, 15000012]" by simp
  from h1 2 e2 3 4 n 5 show ?thesis by blast
qed

end
